theory Spec2Isabelle
  imports Main
begin

section \<open>Python values, exceptions and status codes\<close>

text \<open>
  The request payloads, the answers of the workflow engine and of the authorization
  provider are JSON-like Python objects. A dict is an association list whose first
  binding of a key is the one that counts.
\<close>

datatype pyval =
    PNone
  | PBool bool
  | PInt int
  | PStr string
  | PList "pyval list"
  | PDict "(string \<times> pyval) list"

text \<open>
  The exceptions the service can meet. \<open>except TypeError\<close> catches \<open>TypeError\<close>,
  \<open>except BaseException\<close> catches every other one.
\<close>

datatype exn = TypeError | KeyError | ValueError | AttributeError | OtherError string

datatype http_status = OK | FORBIDDEN | BAD_REQUEST | BAD_GATEWAY

text \<open>Truthiness of an object, as \<open>if x:\<close> tests it.\<close>

fun truthy :: "pyval \<Rightarrow> bool" where
  "truthy PNone = False"
| "truthy (PBool b) = b"
| "truthy (PInt n) = (n \<noteq> 0)"
| "truthy (PStr s) = (s \<noteq> [])"
| "truthy (PList xs) = (xs \<noteq> [])"
| "truthy (PDict d) = (d \<noteq> [])"

text \<open>
  \<open>obj[key]\<close> with a string key: a dict answers or raises \<open>KeyError\<close>, every other
  object of the model raises \<open>TypeError\<close> (not subscriptable, or indices must be
  integers).
\<close>

fun py_getitem :: "pyval \<Rightarrow> string \<Rightarrow> exn + pyval" where
  "py_getitem (PDict d) k = (case map_of d k of None \<Rightarrow> Inl KeyError | Some v \<Rightarrow> Inr v)"
| "py_getitem _ k = Inl TypeError"

section \<open>Query arguments and their coercion\<close>

text \<open>
  A filter or pagination argument as the HTTP layer hands it to a read operation:
  absent (\<open>None\<close>), an integer or a text.
\<close>

datatype qarg = QNone | QInt int | QStr string

fun truthy_arg :: "qarg \<Rightarrow> bool" where
  "truthy_arg QNone = False"
| "truthy_arg (QInt n) = (n \<noteq> 0)"
| "truthy_arg (QStr s) = (s \<noteq> [])"

text \<open>
  A character of a text is a code point below 256; texts with other code points are
  outside the model.

  \<open>int(s)\<close> for a string: white space around is dropped, one sign may lead, then
  decimal digits follow, single underscores allowed between two digits; anything else
  raises \<open>ValueError\<close>, and so does a string of more than 4300 digits (the
  interpreter's default bound). The white space of \<open>int\<close> is the space, the
  characters \<open>\t\<close>, \<open>\n\<close>, \<open>\v\<close>, \<open>\f\<close>, \<open>\r\<close>, and the two white-space
  characters beyond ASCII, \<open>U+0085\<close> and \<open>U+00A0\<close>; the decimal digits below 256
  are \<open>0\<close> to \<open>9\<close>.
\<close>

definition max_str_digits :: nat where
  "max_str_digits = 4300"

definition is_space :: "char \<Rightarrow> bool" where
  "is_space c = (c \<in> set [CHR '' '', CHR 0x09, CHR 0x0A, CHR 0x0B, CHR 0x0C, CHR 0x0D,
                           CHR 0x85, CHR 0xA0])"

definition is_digit :: "char \<Rightarrow> bool" where
  "is_digit c = (48 \<le> (of_char c :: nat) \<and> (of_char c :: nat) \<le> 57)"

definition digit_val :: "char \<Rightarrow> nat" where
  "digit_val c = of_char c - 48"

definition strip :: "string \<Rightarrow> string" where
  "strip s = rev (dropWhile is_space (rev (dropWhile is_space s)))"

fun valid_digits :: "string \<Rightarrow> bool" where
  "valid_digits [] = False"
| "valid_digits [c] = is_digit c"
| "valid_digits (c # d # cs) =
     (is_digit c \<and> (if d = CHR ''_'' then valid_digits cs else valid_digits (d # cs)))"

definition digits_value :: "string \<Rightarrow> nat" where
  "digits_value s = foldl (\<lambda>a c. 10 * a + digit_val c) 0 (filter (\<lambda>c. c \<noteq> CHR ''_'') s)"

definition int_of_str :: "string \<Rightarrow> exn + int" where
  "int_of_str s =
     (let t = strip s;
          negative = (t \<noteq> [] \<and> hd t = CHR ''-'');
          body = (if t \<noteq> [] \<and> (hd t = CHR ''-'' \<or> hd t = CHR ''+'') then tl t else t)
      in if valid_digits body \<and> length (filter is_digit body) \<le> max_str_digits
         then Inr (if negative then - int (digits_value body) else int (digits_value body))
         else Inl ValueError)"

fun py_int :: "qarg \<Rightarrow> exn + int" where
  "py_int QNone = Inl TypeError"
| "py_int (QInt n) = Inr n"
| "py_int (QStr s) = int_of_str s"

text \<open>
  \<open>str(x)\<close>: the decimal digits of an integer, a text as it is. An integer of more
  than 4300 digits raises \<open>ValueError\<close>.
\<close>

fun digits_of_nat :: "nat \<Rightarrow> string" where
  "digits_of_nat n =
     (if n < 10 then [char_of (48 + n)]
      else digits_of_nat (n div 10) @ [char_of (48 + n mod 10)])"

definition str_of_int :: "int \<Rightarrow> string" where
  "str_of_int i = (if i < 0 then CHR ''-'' # digits_of_nat (nat (- i)) else digits_of_nat (nat i))"

fun py_str :: "qarg \<Rightarrow> exn + string" where
  "py_str QNone = Inr ''None''"
| "py_str (QInt n) =
     (if length (digits_of_nat (nat \<bar>n\<bar>)) \<le> max_str_digits then Inr (str_of_int n)
      else Inl ValueError)"
| "py_str (QStr s) = Inr s"

text \<open>\<open>if x: x = int(x)\<close> and \<open>if x: x = str(x)\<close>.\<close>

definition coerce_int :: "qarg \<Rightarrow> exn + qarg" where
  "coerce_int x =
     (if truthy_arg x then (case py_int x of Inl err \<Rightarrow> Inl err | Inr n \<Rightarrow> Inr (QInt n))
      else Inr x)"

definition coerce_str :: "qarg \<Rightarrow> exn + qarg" where
  "coerce_str x =
     (if truthy_arg x then (case py_str x of Inl err \<Rightarrow> Inl err | Inr s \<Rightarrow> Inr (QStr s))
      else Inr x)"

text \<open>
  The keyword arguments of the filtered read operations, each under the source's name
  with the suffix \<open>_arg\<close>.
\<close>

record filters =
  page_no_arg :: qarg
  limit_arg :: qarg
  order_by_arg :: qarg
  sort_order_arg :: qarg
  created_from_arg :: qarg
  created_to_arg :: qarg
  modified_from_arg :: qarg
  modified_to_arg :: qarg
  application_id_arg :: qarg
  application_name_arg :: qarg
  application_status_arg :: qarg
  created_by_arg :: qarg

text \<open>
  The find operations of the repository with the arguments the service passes to them.
\<close>

datatype find_call =
    Find_by_form_names "pyval list" filters
  | Find_id_by_form_names "pyval list" qarg
  | Find_all qarg qarg
  | Find_all_by_user qarg filters
  | Find_all_by_user_group qarg qarg qarg
  | Find_by_ids "qarg list"
  | Find_all_applications "pyval list" qarg qarg
  | Find_by_form_id qarg qarg qarg
  | Find_by_form_id_user qarg qarg qarg qarg

section \<open>The application entity and its store\<close>

text \<open>
  The attributes of \<open>Application\<close> that the service reads or writes. The source's
  attribute \<open>id\<close> is \<open>app_id\<close> here. \<open>created\<close> holds the rendering of the creation
  time, which is what \<open>created.__str__()\<close> yields.
\<close>

record application =
  app_id :: int
  application_status :: pyval
  application_name :: pyval
  form_url :: pyval
  form_process_mapper_id :: pyval
  created_by :: pyval
  created :: string
  process_instance_id :: pyval

text \<open>The attributes of \<open>FormProcessMapper\<close> that the service reads (\<open>id\<close> is \<open>mapper_id\<close>).\<close>

record mapper =
  mapper_id :: int
  form_name :: string
  process_key :: pyval

text \<open>The variables sent to the workflow engine: name and value, in the source's order.\<close>

type_synonym payload = "(string \<times> pyval) list"

text \<open>
  The calls the service makes to its collaborators, recorded in the order they happen:
  the workflow start, the remote authorization fetch, a find operation of the repository,
  the logger.
\<close>

datatype call =
    BpmStart pyval payload string
  | AuthFetch string
  | RepoFind find_call
  | LogCritical
  | LogWarning

text \<open>
  The state the service runs in: the persisted application rows, the entries of the
  \<open>lru_cache\<close> of \<open>get_authorised_form_list\<close> (most recently used first), and the
  calls made so far.
\<close>

record world =
  store :: "application list"
  cache :: "(string \<times> pyval) list"
  trace :: "call list"

text \<open>
  The scoping dimension of a find operation: the part of its arguments that is not
  an optional filter, the pagination or the sort order.
\<close>

datatype scope =
    By_form_names "pyval list"
  | By_id_and_form_names "pyval list" qarg
  | Everything
  | By_user qarg
  | By_user_group qarg
  | By_ids "qarg list"
  | By_form_id qarg
  | By_form_id_user qarg qarg

text \<open>
  The collaborators whose code is outside the service and whose answers it cannot know:
  the constant \<open>NEW_APPLICATION_STATUS\<close>, the mapper lookup (it may raise, or find
  nothing), the workflow engine, the authorization provider, the clock, and the output
  schema's rendering of one entity. Of the storage layer behind the repository's find
  operations three things are left open: which applications a scope covers, what a
  filter predicate that is present (named by its keyword) demands of an application,
  and how a sort field and direction arrange a result. The object that
  \<open>find_all_applications\<close> returns has a method \<open>count\<close>; what it reports for a call on
  a store is left open as well.
\<close>

record env =
  NEW_APPLICATION_STATUS :: pyval
  find_form_by_form_id :: "pyval \<Rightarrow> exn + mapper option"
  post_process_start :: "pyval \<Rightarrow> payload \<Rightarrow> string \<Rightarrow> exn + pyval"
  get_auth_form_details :: "string \<Rightarrow> exn + pyval"
  now :: string
  in_scope :: "scope \<Rightarrow> application \<Rightarrow> bool"
  holds :: "string \<Rightarrow> qarg \<Rightarrow> application \<Rightarrow> bool"
  arrange :: "qarg \<Rightarrow> qarg \<Rightarrow> application list \<Rightarrow> application list"
  result_count :: "find_call \<Rightarrow> application list \<Rightarrow> int"
  dump_entity :: "application \<Rightarrow> pyval"

text \<open>A field of the request map, \<open>None\<close> when the key is absent.\<close>

definition field :: "(string \<rightharpoonup> pyval) \<Rightarrow> string \<Rightarrow> pyval" where
  "field data k = (case data k of None \<Rightarrow> PNone | Some v \<Rightarrow> v)"

text \<open>An identifier no stored row has: one more than the largest one in use.\<close>

definition fresh_id :: "application list \<Rightarrow> int" where
  "fresh_id rows = fold max (map app_id rows) 0 + 1"

text \<open>
  Modelled from the spec: \<open>Application.create_from_dict\<close> is not in the source. The
  spec's repository interface is \<open>create(fields) \<rightarrow> entity\<close>, which persists the record
  and assigns identifier and timestamps; the process-instance identifier is absent until
  the workflow is started or the caller's one is attached. Failures of the storage are
  outside the model: create and update always succeed.
\<close>

definition create_from_dict :: "string \<Rightarrow> (string \<rightharpoonup> pyval) \<Rightarrow> world \<Rightarrow> application \<times> world" where
  "create_from_dict stamp data w =
     (let application =
        \<lparr> app_id = fresh_id (store w),
          application_status = field data ''application_status'',
          application_name = field data ''application_name'',
          form_url = field data ''form_url'',
          form_process_mapper_id = field data ''form_process_mapper_id'',
          created_by = field data ''created_by'',
          created = stamp,
          process_instance_id = PNone \<rparr>
      in (application, w\<lparr>store := store w @ [application]\<rparr>))"

text \<open>One named attribute of the entity set to a value; unknown names are ignored.\<close>

definition set_attribute :: "string \<times> pyval \<Rightarrow> application \<Rightarrow> application" where
  "set_attribute kv a =
     (if fst kv = ''process_instance_id'' then a\<lparr>process_instance_id := snd kv\<rparr>
      else if fst kv = ''application_status'' then a\<lparr>application_status := snd kv\<rparr>
      else if fst kv = ''application_name'' then a\<lparr>application_name := snd kv\<rparr>
      else if fst kv = ''form_url'' then a\<lparr>form_url := snd kv\<rparr>
      else if fst kv = ''form_process_mapper_id'' then a\<lparr>form_process_mapper_id := snd kv\<rparr>
      else if fst kv = ''created_by'' then a\<lparr>created_by := snd kv\<rparr>
      else a)"

text \<open>
  Modelled from the spec: \<open>application.update\<close> is not in the source. The spec's
  repository interface is \<open>update(entity, fields) \<rightarrow> entity\<close>: the fields are set on the
  entity and the row with its identifier is replaced by it.
\<close>

definition application_update :: "application \<Rightarrow> (string \<times> pyval) list \<Rightarrow> world \<Rightarrow> application \<times> world" where
  "application_update a changes w =
     (let a' = fold set_attribute changes a
      in (a', w\<lparr>store := map (\<lambda>r. if app_id r = app_id a then a' else r) (store w)\<rparr>))"

section \<open>Creating an application\<close>

text \<open>
  What \<open>create_application\<close> returns: the entity, or a pair of a response dict and a
  status. The values of the response dict are a message or the exception caught.
\<close>

datatype resp_val = Msg string | Err exn

datatype create_result =
    Created application
  | Failure "(string \<times> resp_val) list" http_status

text \<open>The payload of the workflow start, built from the created entity.\<close>

definition start_payload :: "application \<Rightarrow> payload" where
  "start_payload application =
     [(''applicationId'', PInt (app_id application)),
      (''formUrl'', form_url application),
      (''formName'', application_name application),
      (''submitterName'', created_by application),
      (''submissionDate'', PStr (created application))]"

text \<open>
  The part of the \<open>try\<close> block that can raise: the call of the engine, then
  \<open>camunda_start_task["id"]\<close>.
\<close>

definition workflow_start :: "env \<Rightarrow> mapper \<Rightarrow> payload \<Rightarrow> string \<Rightarrow> exn + pyval" where
  "workflow_start e m payload token =
     (case post_process_start e (process_key m) payload token of
        Inl err \<Rightarrow> Inl err
      | Inr camunda_start_task \<Rightarrow> py_getitem camunda_start_task ''id'')"

text \<open>
  \<open>create_application(data, token)\<close>. The caller's dict is changed in place, so the
  model returns it beside the result and the state; an exception that leaves the
  function is \<open>Inl\<close>.
\<close>

definition create_application ::
  "env \<Rightarrow> (string \<rightharpoonup> pyval) \<Rightarrow> string \<Rightarrow> world \<Rightarrow> (exn + create_result) \<times> (string \<rightharpoonup> pyval) \<times> world" where
  "create_application e data token w =
     (let data1 = data(''application_status'' \<mapsto> NEW_APPLICATION_STATUS e) in
      case data1 ''form_id'' of
        None \<Rightarrow> (Inl KeyError, data1, w)
      | Some form_id \<Rightarrow>
         (case find_form_by_form_id e form_id of
            Inl err \<Rightarrow> (Inl err, data1, w)
          | Inr None \<Rightarrow> (Inl AttributeError, data1, w)
          | Inr (Some m) \<Rightarrow>
             (let data2 = data1(''form_process_mapper_id'' \<mapsto> PInt (mapper_id m));
                  data3 = data2(''application_name'' \<mapsto> PStr (form_name m));
                  (application, w1) = create_from_dict (now e) data3 w
              in case data3 ''process_instance_id'' of
                   Some pid \<Rightarrow>
                     (let (application', w2) =
                            application_update application [(''process_instance_id'', pid)] w1
                      in (Inr (Created application'), data3, w2))
                 | None \<Rightarrow>
                     (let payload = start_payload application;
                          w2 = w1\<lparr>trace := trace w1 @ [BpmStart (process_key m) payload token]\<rparr>
                      in case workflow_start e m payload token of
                           Inr pid \<Rightarrow>
                             (let (application', w3) =
                                    application_update application [(''process_instance_id'', pid)] w2
                              in (Inr (Created application'), data3, w3))
                         | Inl err \<Rightarrow>
                             (if err = TypeError then
                                (Inr (Failure
                                   [(''message'', Msg ''Camunda workflow not able to create a task''),
                                    (''error'', Err err)] BAD_GATEWAY),
                                 data3, w2\<lparr>trace := trace w2 @ [LogCritical]\<rparr>)
                              else
                                (Inr (Failure
                                   [(''systemErrors'', Err err),
                                    (''message'', Msg ''Camunda Process Mapper Key not provided'')]
                                   BAD_REQUEST),
                                 data3, w2\<lparr>trace := trace w2 @ [LogWarning]\<rparr>))))))"

section \<open>The authorization cache\<close>

text \<open>\<open>@lru_cache(maxsize=32)\<close>.\<close>

definition maxsize :: nat where
  "maxsize = 32"

text \<open>
  \<open>get_authorised_form_list(token)\<close> under its \<open>lru_cache\<close>. A hit returns the stored
  result and makes the entry the most recently used one; no call of the provider happens.
  A miss calls the provider; an exception leaves the cache as it was; a result (whatever
  its value) is stored in front, after the least recently used entry (the last one) has
  been dropped when the cache is full.
\<close>

definition get_authorised_form_list :: "env \<Rightarrow> string \<Rightarrow> world \<Rightarrow> (exn + pyval) \<times> world" where
  "get_authorised_form_list e token w =
     (case map_of (cache w) token of
        Some response \<Rightarrow>
          (Inr response,
           w\<lparr>cache := (token, response) # filter (\<lambda>kv. fst kv \<noteq> token) (cache w)\<rparr>)
      | None \<Rightarrow>
          (let w1 = w\<lparr>trace := trace w @ [AuthFetch token]\<rparr> in
           case get_auth_form_details e token of
             Inl err \<Rightarrow> (Inl err, w1)
           | Inr response \<Rightarrow>
               (Inr response,
                w1\<lparr>cache := (token, response) #
                   (if maxsize \<le> length (cache w1) then butlast (cache w1) else cache w1)\<rparr>)))"

text \<open>
  A run of lookups, each against the provider as it answers at that moment; the results
  are dropped, the state is kept.
\<close>

fun lookups :: "(env \<times> string) list \<Rightarrow> world \<Rightarrow> world" where
  "lookups [] w = w"
| "lookups ((e, token) # rest) w = lookups rest (snd (get_authorised_form_list e token w))"

text \<open>What a cache built by the decorator satisfies: one entry per key, at most \<open>maxsize\<close> entries.\<close>

definition cache_ok :: "(string \<times> pyval) list \<Rightarrow> bool" where
  "cache_ok c = (distinct (map fst c) \<and> length c \<le> maxsize)"

section \<open>The repository's find operations\<close>

text \<open>
  What a find operation is asked: its scope, its optional filter predicates by keyword,
  its sort field and direction, its page number and page size.
\<close>

fun scope_of :: "find_call \<Rightarrow> scope" where
  "scope_of (Find_by_form_names form_names f) = By_form_names form_names"
| "scope_of (Find_id_by_form_names form_names application_id) =
     By_id_and_form_names form_names application_id"
| "scope_of (Find_all page_no limit) = Everything"
| "scope_of (Find_all_by_user user_id f) = By_user user_id"
| "scope_of (Find_all_by_user_group user_id page_no limit) = By_user_group user_id"
| "scope_of (Find_by_ids application_ids) = By_ids application_ids"
| "scope_of (Find_all_applications form_names page_no limit) = By_form_names form_names"
| "scope_of (Find_by_form_id form_id page_no limit) = By_form_id form_id"
| "scope_of (Find_by_form_id_user form_id user_id page_no limit) = By_form_id_user form_id user_id"

definition filter_predicates :: "filters \<Rightarrow> (string \<times> qarg) list" where
  "filter_predicates f =
     [(''application_id'', application_id_arg f),
      (''application_name'', application_name_arg f),
      (''application_status'', application_status_arg f),
      (''created_by'', created_by_arg f),
      (''created_from'', created_from_arg f),
      (''created_to'', created_to_arg f),
      (''modified_from'', modified_from_arg f),
      (''modified_to'', modified_to_arg f)]"

fun predicates_of :: "find_call \<Rightarrow> (string \<times> qarg) list" where
  "predicates_of (Find_by_form_names form_names f) = filter_predicates f"
| "predicates_of (Find_all_by_user user_id f) = filter_predicates f"
| "predicates_of _ = []"

fun ordering_of :: "find_call \<Rightarrow> qarg \<times> qarg" where
  "ordering_of (Find_by_form_names form_names f) = (order_by_arg f, sort_order_arg f)"
| "ordering_of (Find_all_by_user user_id f) = (order_by_arg f, sort_order_arg f)"
| "ordering_of _ = (QNone, QNone)"

fun paging_of :: "find_call \<Rightarrow> qarg \<times> qarg" where
  "paging_of (Find_by_form_names form_names f) = (page_no_arg f, limit_arg f)"
| "paging_of (Find_id_by_form_names form_names application_id) = (QNone, QNone)"
| "paging_of (Find_all page_no limit) = (page_no, limit)"
| "paging_of (Find_all_by_user user_id f) = (page_no_arg f, limit_arg f)"
| "paging_of (Find_all_by_user_group user_id page_no limit) = (page_no, limit)"
| "paging_of (Find_by_ids application_ids) = (QNone, QNone)"
| "paging_of (Find_all_applications form_names page_no limit) = (page_no, limit)"
| "paging_of (Find_by_form_id form_id page_no limit) = (page_no, limit)"
| "paging_of (Find_by_form_id_user form_id user_id page_no limit) = (page_no, limit)"

text \<open>
  Modelled from the spec: the repository's find operations are not in the source. The
  spec's QueryFilter is a set of optional predicates, used uniformly by every find
  operation, in which an absent or falsy value imposes no constraint; a predicate that
  is present demands what the storage layer makes of it.
\<close>

definition filter_admits :: "env \<Rightarrow> string \<times> qarg \<Rightarrow> application \<Rightarrow> bool" where
  "filter_admits e kv a = (if truthy_arg (snd kv) then holds e (fst kv) (snd kv) a else True)"

text \<open>
  Modelled from the spec: the full filtered result of a find operation, in the declared
  sort order: the stored applications that its scope covers and every filter predicate
  admits.
\<close>

definition matching :: "env \<Rightarrow> find_call \<Rightarrow> application list \<Rightarrow> application list" where
  "matching e c rows =
     arrange e (fst (ordering_of c)) (snd (ordering_of c))
       (filter (\<lambda>a. in_scope e (scope_of c) a \<and> list_all (\<lambda>kv. filter_admits e kv a) (predicates_of c))
          rows)"

text \<open>
  Modelled from the spec: page number and page size are both optional, and without
  them everything is returned; page \<open>N\<close> of size \<open>P\<close> holds at most \<open>P\<close> records, and
  the pages in order make up the full result. Pages are counted from 1.
\<close>

definition page_slice :: "qarg \<times> qarg \<Rightarrow> 'a list \<Rightarrow> 'a list" where
  "page_slice paging rows =
     (case paging of
        (QInt page_no, QInt limit) \<Rightarrow>
          (if 0 < page_no \<and> 0 < limit
           then take (nat limit) (drop (nat ((page_no - 1) * limit)) rows)
           else rows)
      | _ \<Rightarrow> rows)"

text \<open>
  Modelled from the spec: the repository interface is
  \<open>find_*(filters, pagination, sort) \<rightarrow> (entities, total_count)\<close>, where the entities
  are the requested page and the count is the size of the full filtered result. The
  operations that return entities only return the page; the lookup of one application
  returns the first match, or nothing. Failures of the storage are outside the model.
\<close>

definition find_counted :: "env \<Rightarrow> find_call \<Rightarrow> application list \<Rightarrow> application list \<times> int" where
  "find_counted e c rows =
     (page_slice (paging_of c) (matching e c rows), int (length (matching e c rows)))"

definition find_rows :: "env \<Rightarrow> find_call \<Rightarrow> application list \<Rightarrow> application list" where
  "find_rows e c rows = page_slice (paging_of c) (matching e c rows)"

definition find_one :: "env \<Rightarrow> find_call \<Rightarrow> application list \<Rightarrow> application option" where
  "find_one e c rows = (case matching e c rows of [] \<Rightarrow> None | a # _ \<Rightarrow> Some a)"

section \<open>The read operations\<close>

text \<open>
  What a read operation returns: a serialized list alone, a serialized list with a
  count, or a serialized object with a status.
\<close>

datatype read_result =
    Bare pyval
  | Counted pyval int
  | WithStatus pyval http_status

text \<open>
  \<open>ApplicationSchema().dump(rows, many=True)\<close>: bulk serialization renders each entity
  in turn.
\<close>

definition dump_many :: "env \<Rightarrow> application list \<Rightarrow> pyval" where
  "dump_many e rows = PList (map (dump_entity e) rows)"

text \<open>
  Modelled from the spec: the output schema is not in the source. \<open>dump\<close> of one entity
  is the schema's rendering of it; \<open>dump\<close> of an object that has none of the entity's
  attributes (\<open>None\<close>, the empty list) is the empty body.
\<close>

definition dump_one :: "env \<Rightarrow> application option \<Rightarrow> pyval" where
  "dump_one e obj = (case obj of None \<Rightarrow> PDict [] | Some a \<Rightarrow> dump_entity e a)"

text \<open>
  \<open>for auth_form_detail in auth_form_details\<close>: a list yields its elements, a string its
  characters, a dict its keys; the other objects are not iterable.
\<close>

fun py_iter :: "pyval \<Rightarrow> exn + pyval list" where
  "py_iter (PList xs) = Inr xs"
| "py_iter (PStr s) = Inr (map (\<lambda>c. PStr [c]) s)"
| "py_iter (PDict d) = Inr (map (\<lambda>kv. PStr (fst kv)) d)"
| "py_iter _ = Inl TypeError"

text \<open>\<open>form_names.append(auth_form_detail["formName"])\<close> for each element, in order.\<close>

fun collect_form_names :: "pyval list \<Rightarrow> exn + pyval list" where
  "collect_form_names [] = Inr []"
| "collect_form_names (auth_form_detail # rest) =
     (case py_getitem auth_form_detail ''formName'' of
        Inl err \<Rightarrow> Inl err
      | Inr name \<Rightarrow>
         (case collect_form_names rest of
            Inl err \<Rightarrow> Inl err
          | Inr names \<Rightarrow> Inr (name # names)))"

definition form_names_of :: "pyval \<Rightarrow> exn + pyval list" where
  "form_names_of auth_form_details =
     (case py_iter auth_form_details of
        Inl err \<Rightarrow> Inl err
      | Inr details \<Rightarrow> collect_form_names details)"

text \<open>One statement after another: the first exception ends the sequence.\<close>

definition and_then :: "exn + 'a \<Rightarrow> ('a \<Rightarrow> exn + 'b) \<Rightarrow> exn + 'b" where
  "and_then r k = (case r of Inl err \<Rightarrow> Inl err | Inr v \<Rightarrow> k v)"

text \<open>The coercions at the head of \<open>get_auth_applications_and_count\<close>, in the source's order.\<close>

definition coerce_filters :: "filters \<Rightarrow> exn + filters" where
  "coerce_filters f =
     and_then (coerce_int (page_no_arg f)) (\<lambda>page_no.
     and_then (coerce_int (limit_arg f)) (\<lambda>limit.
     and_then (coerce_str (order_by_arg f)) (\<lambda>order_by.
     and_then (coerce_int (application_id_arg f)) (\<lambda>application_id.
     and_then (coerce_str (application_name_arg f)) (\<lambda>application_name.
     and_then (coerce_str (application_status_arg f)) (\<lambda>application_status.
     and_then (coerce_str (created_by_arg f)) (\<lambda>created_by.
     and_then (coerce_str (sort_order_arg f)) (\<lambda>sort_order.
       Inr (f\<lparr>page_no_arg := page_no,
              limit_arg := limit,
              order_by_arg := order_by,
              application_id_arg := application_id,
              application_name_arg := application_name,
              application_status_arg := application_status,
              created_by_arg := created_by,
              sort_order_arg := sort_order\<rparr>)))))))))"

text \<open>The coercions at the head of \<open>get_all_applications_by_user\<close>, in the source's order.\<close>

definition coerce_filters_by_user :: "filters \<Rightarrow> exn + filters" where
  "coerce_filters_by_user f =
     and_then (coerce_int (page_no_arg f)) (\<lambda>page_no.
     and_then (coerce_int (limit_arg f)) (\<lambda>limit.
     and_then (coerce_str (order_by_arg f)) (\<lambda>order_by.
     and_then (coerce_str (sort_order_arg f)) (\<lambda>sort_order.
     and_then (coerce_int (application_id_arg f)) (\<lambda>application_id.
     and_then (coerce_str (application_name_arg f)) (\<lambda>application_name.
     and_then (coerce_str (application_status_arg f)) (\<lambda>application_status.
     and_then (coerce_str (created_by_arg f)) (\<lambda>created_by.
       Inr (f\<lparr>page_no_arg := page_no,
              limit_arg := limit,
              order_by_arg := order_by,
              sort_order_arg := sort_order,
              application_id_arg := application_id,
              application_name_arg := application_name,
              application_status_arg := application_status,
              created_by_arg := created_by\<rparr>)))))))))"

text \<open>The coercions of the operations that take \<open>page_no\<close> and \<open>limit\<close> only.\<close>

definition coerce_page :: "qarg \<Rightarrow> qarg \<Rightarrow> exn + qarg \<times> qarg" where
  "coerce_page page_no limit =
     and_then (coerce_int page_no) (\<lambda>page_no'.
     and_then (coerce_int limit) (\<lambda>limit'.
       Inr (page_no', limit')))"

text \<open>A call of a find operation is recorded.\<close>

definition called :: "find_call \<Rightarrow> world \<Rightarrow> world" where
  "called c w = w\<lparr>trace := trace w @ [RepoFind c]\<rparr>"

definition get_auth_applications_and_count ::
  "env \<Rightarrow> string \<Rightarrow> filters \<Rightarrow> world \<Rightarrow> (exn + read_result) \<times> world" where
  "get_auth_applications_and_count e token f w =
     (case coerce_filters f of
        Inl err \<Rightarrow> (Inl err, w)
      | Inr f' \<Rightarrow>
         (case get_authorised_form_list e token w of
            (Inl err, w1) \<Rightarrow> (Inl err, w1)
          | (Inr auth_form_details, w1) \<Rightarrow>
             (if truthy auth_form_details then
                (case form_names_of auth_form_details of
                   Inl err \<Rightarrow> (Inl err, w1)
                 | Inr form_names \<Rightarrow>
                    (let (applications, get_all_applications_count) =
                           find_counted e (Find_by_form_names form_names f') (store w1)
                     in (Inr (Counted (dump_many e applications) get_all_applications_count),
                         called (Find_by_form_names form_names f') w1)))
              else (Inr (Counted (dump_many e []) 0), w1))))"

definition get_auth_by_application_id ::
  "env \<Rightarrow> qarg \<Rightarrow> string \<Rightarrow> world \<Rightarrow> (exn + read_result) \<times> world" where
  "get_auth_by_application_id e application_id token w =
     (case get_authorised_form_list e token w of
        (Inl err, w1) \<Rightarrow> (Inl err, w1)
      | (Inr auth_form_details, w1) \<Rightarrow>
         (if truthy auth_form_details then
            (case form_names_of auth_form_details of
               Inl err \<Rightarrow> (Inl err, w1)
             | Inr form_names \<Rightarrow>
                (let application =
                       find_one e (Find_id_by_form_names form_names application_id) (store w1)
                 in (Inr (WithStatus (dump_one e application) OK),
                     called (Find_id_by_form_names form_names application_id) w1)))
          else (Inr (WithStatus (dump_one e None) FORBIDDEN), w1)))"

definition get_all_applications :: "env \<Rightarrow> qarg \<Rightarrow> qarg \<Rightarrow> world \<Rightarrow> (exn + read_result) \<times> world" where
  "get_all_applications e page_no limit w =
     (case coerce_page page_no limit of
        Inl err \<Rightarrow> (Inl err, w)
      | Inr (page_no', limit') \<Rightarrow>
         (let applications = find_rows e (Find_all page_no' limit') (store w)
          in (Inr (Bare (dump_many e applications)), called (Find_all page_no' limit') w)))"

definition get_all_applications_by_user ::
  "env \<Rightarrow> qarg \<Rightarrow> filters \<Rightarrow> world \<Rightarrow> (exn + read_result) \<times> world" where
  "get_all_applications_by_user e user_id f w =
     (case coerce_filters_by_user f of
        Inl err \<Rightarrow> (Inl err, w)
      | Inr f' \<Rightarrow>
         (let (applications, get_all_applications_count) =
                find_counted e (Find_all_by_user user_id f') (store w)
          in (Inr (Counted (dump_many e applications) get_all_applications_count),
              called (Find_all_by_user user_id f') w)))"

definition get_all_application_by_user_group ::
  "env \<Rightarrow> qarg \<Rightarrow> qarg \<Rightarrow> qarg \<Rightarrow> world \<Rightarrow> (exn + read_result) \<times> world" where
  "get_all_application_by_user_group e page_no limit user_id w =
     (case coerce_page page_no limit of
        Inl err \<Rightarrow> (Inl err, w)
      | Inr (page_no', limit') \<Rightarrow>
         (let applications = find_rows e (Find_all_by_user_group user_id page_no' limit') (store w)
          in (Inr (Bare (dump_many e applications)),
              called (Find_all_by_user_group user_id page_no' limit') w)))"


text \<open>
  \<open>get_all_application_count\<close>: the count is \<open>applications.count()\<close>, asked of the
  object that \<open>find_all_applications\<close> returned and that is serialized. Neither the
  source nor the spec says what that method counts, the returned page or the full
  filtered result.
\<close>

definition get_all_application_count ::
  "env \<Rightarrow> string \<Rightarrow> qarg \<Rightarrow> qarg \<Rightarrow> world \<Rightarrow> (exn + read_result) \<times> world" where
  "get_all_application_count e token page_no limit w =
     (case coerce_page page_no limit of
        Inl err \<Rightarrow> (Inl err, w)
      | Inr (page_no', limit') \<Rightarrow>
         (case get_authorised_form_list e token w of
            (Inl err, w1) \<Rightarrow> (Inl err, w1)
          | (Inr auth_form_details, w1) \<Rightarrow>
             (if truthy auth_form_details then
                (case form_names_of auth_form_details of
                   Inl err \<Rightarrow> (Inl err, w1)
                 | Inr form_names \<Rightarrow>
                    (let applications =
                           find_rows e (Find_all_applications form_names page_no' limit') (store w1)
                     in (Inr (Counted (dump_many e applications)
                                (result_count e (Find_all_applications form_names page_no' limit')
                                   (store w1))),
                         called (Find_all_applications form_names page_no' limit') w1)))
              else (Inr (Counted (dump_many e []) 0), w1))))"

definition get_all_applications_form_id ::
  "env \<Rightarrow> qarg \<Rightarrow> qarg \<Rightarrow> qarg \<Rightarrow> world \<Rightarrow> (exn + read_result) \<times> world" where
  "get_all_applications_form_id e form_id page_no limit w =
     (case coerce_page page_no limit of
        Inl err \<Rightarrow> (Inl err, w)
      | Inr (page_no', limit') \<Rightarrow>
         (let applications = find_rows e (Find_by_form_id form_id page_no' limit') (store w)
          in (Inr (Bare (dump_many e applications)),
              called (Find_by_form_id form_id page_no' limit') w)))"

definition get_all_applications_form_id_user ::
  "env \<Rightarrow> qarg \<Rightarrow> qarg \<Rightarrow> qarg \<Rightarrow> qarg \<Rightarrow> world \<Rightarrow> (exn + read_result) \<times> world" where
  "get_all_applications_form_id_user e form_id user_id page_no limit w =
     (case coerce_page page_no limit of
        Inl err \<Rightarrow> (Inl err, w)
      | Inr (page_no', limit') \<Rightarrow>
         (let applications =
                find_rows e (Find_by_form_id_user form_id user_id page_no' limit') (store w)
          in (Inr (Bare (dump_many e applications)),
              called (Find_by_form_id_user form_id user_id page_no' limit') w)))"

text \<open>The number of find operations among the calls made.\<close>

definition finds :: "call list \<Rightarrow> nat" where
  "finds calls = length (filter (\<lambda>c. case c of RepoFind _ \<Rightarrow> True | _ \<Rightarrow> False) calls)"

text \<open>
  Two sets of filter arguments that differ in falsy values only: field by field the
  values are the same, or both are falsy.
\<close>

definition same_or_falsy :: "qarg \<Rightarrow> qarg \<Rightarrow> bool" where
  "same_or_falsy x y = (x = y \<or> (\<not> truthy_arg x \<and> \<not> truthy_arg y))"

definition same_constraints :: "filters \<Rightarrow> filters \<Rightarrow> bool" where
  "same_constraints f g =
     (same_or_falsy (page_no_arg f) (page_no_arg g)
      \<and> same_or_falsy (limit_arg f) (limit_arg g)
      \<and> order_by_arg f = order_by_arg g
      \<and> sort_order_arg f = sort_order_arg g
      \<and> same_or_falsy (application_id_arg f) (application_id_arg g)
      \<and> same_or_falsy (application_name_arg f) (application_name_arg g)
      \<and> same_or_falsy (application_status_arg f) (application_status_arg g)
      \<and> same_or_falsy (created_by_arg f) (created_by_arg g)
      \<and> same_or_falsy (created_from_arg f) (created_from_arg g)
      \<and> same_or_falsy (created_to_arg f) (created_to_arg g)
      \<and> same_or_falsy (modified_from_arg f) (modified_from_arg g)
      \<and> same_or_falsy (modified_to_arg f) (modified_to_arg g))"

section \<open>Form and submission identifiers from the form URL\<close>

text \<open>
  \<open>s.find(sub)\<close>: the lowest index at which \<open>sub\<close> starts in \<open>s\<close>, or \<open>-1\<close>.
  \<open>find_from\<close> searches the rest of the string, which starts at index \<open>i\<close>.
\<close>

fun find_from :: "string \<Rightarrow> string \<Rightarrow> int \<Rightarrow> int" where
  "find_from [] sub i = (if sub = [] then i else - 1)"
| "find_from (c # cs) sub i =
     (if take (length sub) (c # cs) = sub then i else find_from cs sub (i + 1))"

definition py_find :: "string \<Rightarrow> string \<Rightarrow> int" where
  "py_find s sub = find_from s sub 0"

text \<open>
  \<open>s[a:b]\<close>: a negative bound counts from the end, and both bounds are clamped to the
  string; the slice is empty when the lower bound is not below the upper one.
\<close>

definition slice_bound :: "int \<Rightarrow> int \<Rightarrow> int" where
  "slice_bound n i = (if i < 0 then max 0 (n + i) else min n i)"

definition py_slice :: "string \<Rightarrow> int \<Rightarrow> int \<Rightarrow> string" where
  "py_slice s a b =
     (let n = int (length s); lo = slice_bound n a; hi = slice_bound n b
      in take (nat (hi - lo)) (drop (nat lo) s))"

text \<open>
  What \<open>apply_attributes\<close> returns: the record it was given, changed in place, or the
  pair of a message and a status.
\<close>

datatype attr_result =
    Applied "string \<rightharpoonup> pyval"
  | Rejected string http_status

text \<open>
  \<open>ApplicationSchemaWrapper.apply_attributes(application)\<close> on a dict. A missing
  \<open>formUrl\<close> raises \<open>KeyError\<close>, which the function catches; a \<open>formUrl\<close> that is not a
  string has no \<open>find\<close>, and the \<open>AttributeError\<close> leaves the function.
\<close>

definition apply_attributes :: "(string \<rightharpoonup> pyval) \<Rightarrow> exn + attr_result" where
  "apply_attributes application =
     (case application ''formUrl'' of
        None \<Rightarrow>
          Inr (Rejected ''The required fields of Input request are not passed'' BAD_REQUEST)
      | Some (PStr formurl) \<Rightarrow>
          (let application1 = application(''formId'' \<mapsto>
                 PStr (py_slice formurl (py_find formurl ''/form/'' + 6)
                                        (py_find formurl ''/submission/'')));
               application2 = application1(''submissionId'' \<mapsto>
                 PStr (py_slice formurl (py_find formurl ''/submission/'' + 12)
                                        (int (length formurl))))
           in Inr (Applied application2))
      | Some _ \<Rightarrow> Inl AttributeError)"

section \<open>Auxiliary notions for the statements\<close>

text \<open>
  The request map as \<open>create_application\<close> leaves it once the mapper \<open>m\<close> is resolved:
  the three assignments to \<open>data\<close>.
\<close>

definition prepared :: "env \<Rightarrow> (string \<rightharpoonup> pyval) \<Rightarrow> mapper \<Rightarrow> (string \<rightharpoonup> pyval)" where
  "prepared e data m =
     data(''application_status'' \<mapsto> NEW_APPLICATION_STATUS e,
          ''form_process_mapper_id'' \<mapsto> PInt (mapper_id m),
          ''application_name'' \<mapsto> PStr (form_name m))"

text \<open>
  The entry of \<open>t\<close> with value \<open>v\<close> is in the cache, and every key in front of it
  (used more recently) is in \<open>S\<close>.
\<close>

definition retained :: "string \<Rightarrow> pyval \<Rightarrow> string set \<Rightarrow> (string \<times> pyval) list \<Rightarrow> bool" where
  "retained t v S c = (\<exists>pre post. c = pre @ (t, v) # post \<and> t \<notin> fst ` set pre \<and> fst ` set pre \<subseteq> S)"

text \<open>A decimal digit, which is none of the other characters \<open>int\<close> gives a meaning to.\<close>

definition plain_digit :: "char \<Rightarrow> bool" where
  "plain_digit c = (is_digit c \<and> c \<noteq> CHR ''_'' \<and> \<not> is_space c \<and> c \<noteq> CHR ''-'' \<and> c \<noteq> CHR ''+'')"

section \<open>A concrete setting\<close>

text \<open>
  One form \<open>F1\<close> mapped to the process key \<open>K1\<close>. The engine answers the token
  \<open>good\<close> with an instance id, the token \<open>odd\<close> with \<open>None\<close>, and raises for any
  other token. The provider grants one form to the token \<open>reviewer\<close> and none to any
  other. In the storage layer a form name covers the applications of that name, a user
  the applications the user created, a form id the applications whose URL contains it;
  the filter predicates on id, name, status and creator are equalities, the date
  predicates admit everything; results stay in the order of the store, and the count of
  a result is the number of stored applications that its scope covers.
\<close>

definition arg_val :: "qarg \<Rightarrow> pyval" where
  "arg_val x = (case x of QNone \<Rightarrow> PNone | QInt n \<Rightarrow> PInt n | QStr s \<Rightarrow> PStr s)"

definition url_has :: "pyval \<Rightarrow> qarg \<Rightarrow> bool" where
  "url_has url form_id =
     (case (url, form_id) of (PStr u, QStr f) \<Rightarrow> 0 \<le> py_find u f | _ \<Rightarrow> False)"

fun example_in_scope :: "scope \<Rightarrow> application \<Rightarrow> bool" where
  "example_in_scope (By_form_names form_names) a = (application_name a \<in> set form_names)"
| "example_in_scope (By_id_and_form_names form_names application_id) a =
     (application_name a \<in> set form_names \<and> application_id = QInt (app_id a))"
| "example_in_scope Everything a = True"
| "example_in_scope (By_user user_id) a = (created_by a = arg_val user_id)"
| "example_in_scope (By_user_group user_id) a = (created_by a = arg_val user_id)"
| "example_in_scope (By_ids application_ids) a = (QInt (app_id a) \<in> set application_ids)"
| "example_in_scope (By_form_id form_id) a = url_has (form_url a) form_id"
| "example_in_scope (By_form_id_user form_id user_id) a =
     (url_has (form_url a) form_id \<and> created_by a = arg_val user_id)"

definition example_holds :: "string \<Rightarrow> qarg \<Rightarrow> application \<Rightarrow> bool" where
  "example_holds k v a =
     (if k = ''application_id'' then v = QInt (app_id a)
      else if k = ''application_name'' then application_name a = arg_val v
      else if k = ''application_status'' then application_status a = arg_val v
      else if k = ''created_by'' then created_by a = arg_val v
      else True)"

definition example_mapper :: mapper where
  "example_mapper = \<lparr> mapper_id = 7, form_name = ''Permit'', process_key = PStr ''K1'' \<rparr>"

definition example_env :: env where
  "example_env =
     \<lparr> NEW_APPLICATION_STATUS = PStr ''new'',
       find_form_by_form_id = (\<lambda>form_id. if form_id = PStr ''F1'' then Inr (Some example_mapper) else Inr None),
       post_process_start = (\<lambda>key payload token.
          if token = ''good'' then Inr (PDict [(''id'', PStr ''proc-123'')])
          else if token = ''odd'' then Inr PNone
          else Inl (OtherError ''connection refused'')),
       get_auth_form_details = (\<lambda>token.
          if token = ''reviewer'' then Inr (PList [PDict [(''formName'', PStr ''Permit'')]])
          else Inr (PList [])),
       now = ''2021-01-01 00:00:00'',
       in_scope = example_in_scope,
       holds = example_holds,
       arrange = (\<lambda>order_by sort_order rows. rows),
       result_count = (\<lambda>c rows. int (length (filter (example_in_scope (scope_of c)) rows))),
       dump_entity = (\<lambda>a. PDict [(''id'', PInt (app_id a)), (''formUrl'', form_url a)]) \<rparr>"

definition example_world :: world where
  "example_world = \<lparr> store = [], cache = [], trace = [] \<rparr>"

definition example_data :: "string \<rightharpoonup> pyval" where
  "example_data = [''form_id'' \<mapsto> PStr ''F1'', ''application_status'' \<mapsto> PStr ''approved'',
                   ''form_url'' \<mapsto> PStr ''http://host/form/F1/submission/S1'']"

text \<open>
  A cache that is full: 32 entries under the keys \<open>k\<close>, \<open>kk\<close>, \<open>kkk\<close>, ..., each with
  an empty answer.
\<close>

definition example_full_cache :: "(string \<times> pyval) list" where
  "example_full_cache = map (\<lambda>n. (replicate (Suc n) CHR ''k'', PList [])) [0..<32]"

definition example_full_world :: world where
  "example_full_world = \<lparr> store = [], cache = example_full_cache, trace = [] \<rparr>"

text \<open>A provider that cannot be reached, and one that grants a form to every token.\<close>

definition silent_env :: env where
  "silent_env = example_env\<lparr>get_auth_form_details := (\<lambda>token. Inl (OtherError ''unreachable''))\<rparr>"

definition generous_env :: env where
  "generous_env = example_env\<lparr>get_auth_form_details :=
      (\<lambda>token. Inr (PList [PDict [(''formName'', PStr ''Permit'')]]))\<rparr>"

text \<open>
  Filter arguments as a request can carry them: a page number as text, a limit as an
  integer, the application id \<open>0\<close>, an empty name.
\<close>

definition example_filters :: filters where
  "example_filters =
     \<lparr> page_no_arg = QStr ''1'', limit_arg = QInt 5, order_by_arg = QStr ''id'',
       sort_order_arg = QNone, created_from_arg = QNone, created_to_arg = QNone,
       modified_from_arg = QNone, modified_to_arg = QNone, application_id_arg = QInt 0,
       application_name_arg = QStr '''', application_status_arg = QNone,
       created_by_arg = QNone \<rparr>"

text \<open>The filter arguments above after the coercions.\<close>

definition example_coerced :: filters where
  "example_coerced =
     \<lparr> page_no_arg = QInt 1, limit_arg = QInt 5, order_by_arg = QStr ''id'',
       sort_order_arg = QNone, created_from_arg = QNone, created_to_arg = QNone,
       modified_from_arg = QNone, modified_to_arg = QNone, application_id_arg = QInt 0,
       application_name_arg = QStr '''', application_status_arg = QNone,
       created_by_arg = QNone \<rparr>"

text \<open>The same request with a page size of 2, given as text, before and after the coercions.\<close>

definition example_paged_filters :: filters where
  "example_paged_filters = example_filters\<lparr>limit_arg := QStr ''2''\<rparr>"

definition example_paged_coerced :: filters where
  "example_paged_coerced = example_coerced\<lparr>limit_arg := QInt 2\<rparr>"

text \<open>
  Three stored applications of the form \<open>Permit\<close>, two of them created by \<open>alice\<close>,
  the state that holds them, and their rendering by the schema.
\<close>

definition example_row :: application where
  "example_row =
     \<lparr> app_id = 1, application_status = PStr ''new'', application_name = PStr ''Permit'',
       form_url = PStr ''http://host/form/F1/submission/S1'', form_process_mapper_id = PInt 7,
       created_by = PStr ''alice'', created = ''2021-01-01 00:00:00'',
       process_instance_id = PStr ''proc-123'' \<rparr>"

definition example_row2 :: application where
  "example_row2 = example_row\<lparr>app_id := 2, created_by := PStr ''bob''\<rparr>"

definition example_row3 :: application where
  "example_row3 = example_row\<lparr>app_id := 3\<rparr>"

definition example_stored_world :: world where
  "example_stored_world =
     \<lparr> store = [example_row, example_row2, example_row3], cache = [], trace = [] \<rparr>"

definition example_row_dump :: "int \<Rightarrow> pyval" where
  "example_row_dump i =
     PDict [(''id'', PInt i), (''formUrl'', PStr ''http://host/form/F1/submission/S1'')]"

text \<open>A serialized application as \<open>apply_attributes\<close> receives it.\<close>

definition example_record :: "string \<rightharpoonup> pyval" where
  "example_record = [''id'' \<mapsto> PInt 1, ''formUrl'' \<mapsto> PStr ''http://host/form/F1/submission/S1'']"

section \<open>The store\<close>

lemma fold_max_ge: "(a::int) \<le> fold max xs a"
  by (induction xs arbitrary: a) (auto intro: order_trans [OF max.cobounded2])

lemma fold_max_mem: "x \<in> set xs \<Longrightarrow> (x::int) \<le> fold max xs a"
proof (induction xs arbitrary: a)
  case Nil
  then show ?case by simp
next
  case (Cons y ys)
  show ?case
  proof (cases "x = y")
    case True
    have "max y a \<le> fold max ys (max y a)" by (rule fold_max_ge)
    with True show ?thesis by simp
  next
    case False
    with Cons show ?thesis by simp
  qed
qed

lemma fresh_id_fresh: "r \<in> set rows \<Longrightarrow> app_id r < fresh_id rows"
proof -
  assume "r \<in> set rows"
  then have "app_id r \<in> set (map app_id rows)" by simp
  then have "app_id r \<le> fold max (map app_id rows) 0" by (rule fold_max_mem)
  then show ?thesis by (simp add: fresh_id_def)
qed

lemma replace_fresh_row:
  "map (\<lambda>r. if app_id r = fresh_id rows then a' else r) rows = rows"
proof -
  have "\<forall>r\<in>set rows. app_id r \<noteq> fresh_id rows"
    using fresh_id_fresh by fastforce
  then show ?thesis by (simp add: map_idI)
qed

lemma update_created:
  assumes "create_from_dict stamp data w = (a, w1)"
    and "store w2 = store w1"
  shows "application_update a [(''process_instance_id'', pid)] w2 =
           (a\<lparr>process_instance_id := pid\<rparr>, w2\<lparr>store := store w @ [a\<lparr>process_instance_id := pid\<rparr>]\<rparr>)"
  using assms
  by (auto simp: create_from_dict_def application_update_def set_attribute_def Let_def replace_fresh_row)

lemma create_from_dict_store:
  "create_from_dict stamp data w = (a, w1) \<Longrightarrow>
     store w1 = store w @ [a] \<and> trace w1 = trace w \<and> cache w1 = cache w \<and> process_instance_id a = PNone
     \<and> application_status a = field data ''application_status''"
  by (auto simp: create_from_dict_def Let_def)

lemma create_application_supplied:
  assumes "data ''process_instance_id'' = Some pid"
    and "data ''form_id'' = Some fid"
    and "find_form_by_form_id e fid = Inr (Some m)"
    and "create_from_dict (now e) (prepared e data m) w = (a, w1)"
  shows "create_application e data token w =
           (Inr (Created (a\<lparr>process_instance_id := pid\<rparr>)), prepared e data m,
            w1\<lparr>store := store w @ [a\<lparr>process_instance_id := pid\<rparr>]\<rparr>)"
  using assms update_created [OF assms(4), of w1 pid]
  by (simp add: create_application_def prepared_def Let_def)

lemma create_application_started:
  assumes "data ''process_instance_id'' = None"
    and "data ''form_id'' = Some fid"
    and "find_form_by_form_id e fid = Inr (Some m)"
    and "create_from_dict (now e) (prepared e data m) w = (a, w1)"
    and "workflow_start e m (start_payload a) token = Inr pid"
  shows "create_application e data token w =
           (Inr (Created (a\<lparr>process_instance_id := pid\<rparr>)), prepared e data m,
            w1\<lparr>trace := trace w1 @ [BpmStart (process_key m) (start_payload a) token],
                store := store w @ [a\<lparr>process_instance_id := pid\<rparr>]\<rparr>)"
  using assms
    update_created [OF assms(4), of "w1\<lparr>trace := trace w1 @ [BpmStart (process_key m) (start_payload a) token]\<rparr>" pid]
  by (simp add: create_application_def prepared_def Let_def)

lemma create_application_failed:
  assumes "data ''process_instance_id'' = None"
    and "data ''form_id'' = Some fid"
    and "find_form_by_form_id e fid = Inr (Some m)"
    and "create_from_dict (now e) (prepared e data m) w = (a, w1)"
    and "workflow_start e m (start_payload a) token = Inl err"
  shows "create_application e data token w =
           (if err = TypeError then
              (Inr (Failure [(''message'', Msg ''Camunda workflow not able to create a task''),
                             (''error'', Err err)] BAD_GATEWAY),
               prepared e data m,
               w1\<lparr>trace := trace w1 @ [BpmStart (process_key m) (start_payload a) token, LogCritical]\<rparr>)
            else
              (Inr (Failure [(''systemErrors'', Err err),
                             (''message'', Msg ''Camunda Process Mapper Key not provided'')] BAD_REQUEST),
               prepared e data m,
               w1\<lparr>trace := trace w1 @ [BpmStart (process_key m) (start_payload a) token, LogWarning]\<rparr>))"
  using assms
  by (simp add: create_application_def prepared_def Let_def)

section \<open>Properties of \<open>create_application\<close>\<close>

text \<open>
  C5: when the request map contains \<open>process_instance_id\<close> (and the mapper of its
  \<open>form_id\<close> is resolved), the call returns the created application, the row it
  appended to the store carries the supplied id as it was given, and no call to a
  collaborator is recorded: the workflow engine is not contacted.
\<close>

theorem create_application_supplied_process_instance_id:
  assumes "data ''process_instance_id'' = Some pid"
    and "data ''form_id'' = Some fid"
    and "find_form_by_form_id e fid = Inr (Some m)"
  shows "\<exists>a data' w'. create_application e data token w = (Inr (Created a), data', w')
           \<and> store w' = store w @ [a] \<and> process_instance_id a = pid \<and> trace w' = trace w"
proof -
  obtain a w1 where c: "create_from_dict (now e) (prepared e data m) w = (a, w1)"
    by (cases "create_from_dict (now e) (prepared e data m) w")
  from create_from_dict_store [OF c] create_application_supplied [OF assms c, of token]
  show ?thesis by simp
qed

theorem create_application_supplied_process_instance_id_witness:
  "\<exists>a data' w'. create_application example_env (example_data(''process_instance_id'' \<mapsto> PStr ''p-9'')) ''good'' example_world
       = (Inr (Created a), data', w')
     \<and> store w' = [a] \<and> process_instance_id a = PStr ''p-9'' \<and> trace w' = []"
  using create_application_supplied_process_instance_id
    [of "example_data(''process_instance_id'' \<mapsto> PStr ''p-9'')" "PStr ''p-9''" "PStr ''F1''"
        example_env example_mapper "''good''" example_world]
  by (simp add: example_env_def example_data_def example_world_def)

text \<open>
  C4: in every call that resolves the mapper, the row stored has the status
  \<open>NEW_APPLICATION_STATUS\<close>, whatever status the request map carried; and when no
  \<open>process_instance_id\<close> was supplied and the engine answers with an object that has an
  \<open>id\<close>, the call returns that row and its process-instance field is that \<open>id\<close>.
\<close>

theorem create_application_status_and_instance_id:
  assumes "data ''form_id'' = Some fid"
    and "find_form_by_form_id e fid = Inr (Some m)"
    and "create_application e data token w = (r, data', w')"
  shows "\<exists>a. store w' = store w @ [a]
           \<and> application_status a = NEW_APPLICATION_STATUS e
           \<and> (data ''process_instance_id'' = None \<longrightarrow>
                (\<forall>response pid.
                   post_process_start e (process_key m) (start_payload a) token = Inr response \<longrightarrow>
                   py_getitem response ''id'' = Inr pid \<longrightarrow>
                   r = Inr (Created a) \<and> process_instance_id a = pid))"
proof -
  obtain a0 w1 where c: "create_from_dict (now e) (prepared e data m) w = (a0, w1)"
    by (cases "create_from_dict (now e) (prepared e data m) w")
  note s = create_from_dict_store [OF c]
  have st: "application_status a0 = NEW_APPLICATION_STATUS e"
    using s by (simp add: prepared_def field_def)
  have pl: "\<And>p. start_payload (a0\<lparr>process_instance_id := p\<rparr>) = start_payload a0"
    by (simp add: start_payload_def)
  show ?thesis
  proof (cases "data ''process_instance_id''")
    case (Some pid)
    from create_application_supplied [OF Some assms(1,2) c, of token] assms(3) s st Some
    show ?thesis by auto
  next
    case None
    show ?thesis
    proof (cases "workflow_start e m (start_payload a0) token")
      case (Inl err)
      from create_application_failed [OF None assms(1,2) c Inl] assms(3) s st Inl None
      show ?thesis
        by (auto simp: workflow_start_def split: if_splits sum.splits)
    next
      case (Inr pid)
      let ?a = "a0\<lparr>process_instance_id := pid\<rparr>"
      from create_application_started [OF None assms(1,2) c Inr] assms(3)
      have r: "r = Inr (Created ?a)" and w': "store w' = store w @ [?a]"
        by simp_all
      have "pid' = pid"
        if "post_process_start e (process_key m) (start_payload ?a) token = Inr response"
          and "py_getitem response ''id'' = Inr pid'" for response pid'
        using that Inr by (simp add: workflow_start_def pl)
      with r w' st show ?thesis by auto
    qed
  qed
qed

theorem create_application_status_and_instance_id_witness:
  "\<exists>a. create_application example_env example_data ''good'' example_world
          = (Inr (Created a), prepared example_env example_data example_mapper,
             \<lparr> store = [a], cache = [],
               trace = [BpmStart (PStr ''K1'') (start_payload a) ''good''] \<rparr>)
      \<and> application_status a = PStr ''new''
      \<and> process_instance_id a = PStr ''proc-123''"
  using create_application_status_and_instance_id
    [of example_data "PStr ''F1''" example_env example_mapper "''good''" example_world
        "fst (create_application example_env example_data ''good'' example_world)"
        "fst (snd (create_application example_env example_data ''good'' example_world))"
        "snd (snd (create_application example_env example_data ''good'' example_world))"]
  by (simp add: example_env_def example_data_def example_world_def example_mapper_def
        create_application_def create_from_dict_def application_update_def set_attribute_def
        workflow_start_def start_payload_def fresh_id_def field_def prepared_def Let_def)

text \<open>
  C1: without a supplied \<open>process_instance_id\<close>, when the workflow start raises
  \<open>err\<close>, the call returns a response with the status \<open>BAD_GATEWAY\<close> if \<open>err\<close> is
  \<open>TypeError\<close> and with the status \<open>BAD_REQUEST\<close> and \<open>err\<close> under \<open>systemErrors\<close>
  otherwise; in both cases the store is the old one followed by the created row, which
  has no process-instance id.
\<close>

theorem create_application_workflow_failure:
  assumes "data ''process_instance_id'' = None"
    and "data ''form_id'' = Some fid"
    and "find_form_by_form_id e fid = Inr (Some m)"
    and "create_from_dict (now e) (prepared e data m) w = (a, w1)"
    and "workflow_start e m (start_payload a) token = Inl err"
  shows "\<exists>body status data' w'.
           create_application e data token w = (Inr (Failure body status), data', w')
           \<and> status = (if err = TypeError then BAD_GATEWAY else BAD_REQUEST)
           \<and> (err \<noteq> TypeError \<longrightarrow> map_of body ''systemErrors'' = Some (Err err))
           \<and> store w' = store w @ [a]
           \<and> process_instance_id a = PNone"
  using create_application_failed [OF assms] create_from_dict_store [OF assms(4)]
  by (cases "err = TypeError") simp_all

theorem create_application_workflow_failure_witness:
  "(\<exists>a body data' w'.
      create_application example_env example_data ''odd'' example_world
        = (Inr (Failure body BAD_GATEWAY), data', w')
      \<and> store w' = [a] \<and> process_instance_id a = PNone)
   \<and> (\<exists>a body data' w'.
      create_application example_env example_data ''down'' example_world
        = (Inr (Failure body BAD_REQUEST), data', w')
      \<and> map_of body ''systemErrors'' = Some (Err (OtherError ''connection refused''))
      \<and> store w' = [a] \<and> process_instance_id a = PNone)"
proof -
  let ?a = "fst (create_from_dict (now example_env) (prepared example_env example_data example_mapper) example_world)"
  let ?w1 = "snd (create_from_dict (now example_env) (prepared example_env example_data example_mapper) example_world)"
  have nopid: "example_data ''process_instance_id'' = None"
    and fid: "example_data ''form_id'' = Some (PStr ''F1'')"
    and m: "find_form_by_form_id example_env (PStr ''F1'') = Inr (Some example_mapper)"
    by (simp_all add: example_data_def example_env_def)
  have c: "create_from_dict (now example_env) (prepared example_env example_data example_mapper) example_world = (?a, ?w1)"
    by simp
  have odd: "workflow_start example_env example_mapper (start_payload ?a) ''odd'' = Inl TypeError"
    by (simp add: workflow_start_def example_env_def)
  have down: "workflow_start example_env example_mapper (start_payload ?a) ''down''
                = Inl (OtherError ''connection refused'')"
    by (simp add: workflow_start_def example_env_def)
  from create_application_workflow_failure [OF nopid fid m c odd]
       create_application_workflow_failure [OF nopid fid m c down]
  show ?thesis
    by (simp add: example_world_def) blast
qed

text \<open>
  C9: the caller's map is changed in place. After any call \<open>application_status\<close> is the
  new-status constant; once the mapper is resolved, and on every path from there
  (supplied id, started workflow, failed workflow), the map is the caller's one with
  \<open>application_status\<close>, \<open>form_process_mapper_id\<close> and \<open>application_name\<close> set from
  the constant and the mapper.
\<close>

theorem create_application_mutates_data:
  assumes "create_application e data token w = (r, data', w')"
  shows "data' ''application_status'' = Some (NEW_APPLICATION_STATUS e)
         \<and> (\<forall>fid m. data ''form_id'' = Some fid \<longrightarrow> find_form_by_form_id e fid = Inr (Some m) \<longrightarrow>
               data' = data(''application_status'' \<mapsto> NEW_APPLICATION_STATUS e,
                            ''form_process_mapper_id'' \<mapsto> PInt (mapper_id m),
                            ''application_name'' \<mapsto> PStr (form_name m)))"
  using assms
  by (auto simp: create_application_def Let_def
           split: option.splits sum.splits prod.splits if_splits)

theorem create_application_mutates_data_witness:
  "fst (snd (create_application example_env (example_data(''process_instance_id'' \<mapsto> PStr ''p-9'')) ''good'' example_world))
     = (example_data(''process_instance_id'' \<mapsto> PStr ''p-9''))
         (''application_status'' \<mapsto> PStr ''new'',
          ''form_process_mapper_id'' \<mapsto> PInt 7,
          ''application_name'' \<mapsto> PStr ''Permit'')"
  using create_application_mutates_data
    [of example_env "example_data(''process_instance_id'' \<mapsto> PStr ''p-9'')" "''good''" example_world
        "fst (create_application example_env (example_data(''process_instance_id'' \<mapsto> PStr ''p-9'')) ''good'' example_world)"
        "fst (snd (create_application example_env (example_data(''process_instance_id'' \<mapsto> PStr ''p-9'')) ''good'' example_world))"
        "snd (snd (create_application example_env (example_data(''process_instance_id'' \<mapsto> PStr ''p-9'')) ''good'' example_world))"]
  by (simp add: example_env_def example_data_def example_mapper_def)

section \<open>The authorization cache: retention and eviction\<close>

lemma map_of_skip: "t \<notin> fst ` set pre \<Longrightarrow> map_of (pre @ rest) t = map_of rest t"
  by (induction pre) (auto simp del: map_of_append)

lemma retained_map_of: "retained t v S c \<Longrightarrow> map_of c t = Some v"
  by (auto simp: retained_def map_of_skip simp del: map_of_append)

lemma hit_result:
  "map_of (cache w) t = Some v \<Longrightarrow>
     get_authorised_form_list e t w =
       (Inr v, w\<lparr>cache := (t, v) # filter (\<lambda>kv. fst kv \<noteq> t) (cache w)\<rparr>)"
  by (simp add: get_authorised_form_list_def)

lemma miss_result:
  "map_of (cache w) t = None \<Longrightarrow>
     get_authorised_form_list e t w =
       (case get_auth_form_details e t of
          Inl err \<Rightarrow> (Inl err, w\<lparr>trace := trace w @ [AuthFetch t]\<rparr>)
        | Inr r \<Rightarrow> (Inr r, w\<lparr>trace := trace w @ [AuthFetch t],
                      cache := (t, r) # (if maxsize \<le> length (cache w) then butlast (cache w) else cache w)\<rparr>))"
  by (simp add: get_authorised_form_list_def Let_def split: sum.splits)

lemma cache_ok_step:
  assumes "cache_ok (cache w)"
  shows "cache_ok (cache (snd (get_authorised_form_list e t w)))"
proof (cases "map_of (cache w) t")
  case None
  then have notin: "t \<notin> fst ` set (cache w)" by (simp add: map_of_eq_None_iff)
  have "t \<notin> fst ` set (butlast (cache w))"
    using notin by (auto dest: in_set_butlastD)
  moreover have "distinct (map fst (butlast (cache w)))"
    using assms by (simp add: cache_ok_def map_butlast distinct_butlast)
  ultimately show ?thesis
    using assms None notin
    by (auto simp: miss_result cache_ok_def maxsize_def split: sum.splits)
next
  case (Some v)
  then have "(t, v) \<in> set (cache w)" by (rule map_of_SomeD)
  then have "length (filter (\<lambda>kv. fst kv \<noteq> t) (cache w)) < length (cache w)"
    by (intro length_filter_less [of "(t, v)"]) auto
  moreover have "distinct (map fst (filter (\<lambda>kv. fst kv \<noteq> t) (cache w)))"
    using assms by (simp add: cache_ok_def distinct_map_filter)
  ultimately show ?thesis
    using assms Some by (auto simp: hit_result cache_ok_def)
qed

lemma count_fetch_snoc:
  "u \<noteq> t \<Longrightarrow> count_list (calls @ [AuthFetch u]) (AuthFetch t) = count_list calls (AuthFetch t)"
  by (induction calls) auto

lemma retained_hit_other:
  assumes "retained t v S c" and "u \<noteq> t"
  shows "retained t v (insert u S) ((u, r) # filter (\<lambda>kv. fst kv \<noteq> u) c)"
proof -
  from assms(1) obtain pre post
    where c: "c = pre @ (t, v) # post" and t: "t \<notin> fst ` set pre" and S: "fst ` set pre \<subseteq> S"
    unfolding retained_def by blast
  let ?pre = "(u, r) # filter (\<lambda>kv. fst kv \<noteq> u) pre"
  let ?post = "filter (\<lambda>kv. fst kv \<noteq> u) post"
  have "(u, r) # filter (\<lambda>kv. fst kv \<noteq> u) c = ?pre @ (t, v) # ?post"
    using c assms(2) by simp
  moreover have "t \<notin> fst ` set ?pre" using t assms(2) by auto
  moreover have "fst ` set ?pre \<subseteq> insert u S" using S by auto
  ultimately show ?thesis unfolding retained_def by blast
qed

lemma retained_insert:
  assumes "retained t v S c" and "u \<noteq> t"
  shows "retained t v (insert u S) ((u, r) # c)"
proof -
  from assms(1) obtain pre post
    where c: "c = pre @ (t, v) # post" and t: "t \<notin> fst ` set pre" and S: "fst ` set pre \<subseteq> S"
    unfolding retained_def by blast
  have "(u, r) # c = ((u, r) # pre) @ (t, v) # post" using c by simp
  moreover have "t \<notin> fst ` set ((u, r) # pre)" using t assms(2) by auto
  moreover have "fst ` set ((u, r) # pre) \<subseteq> insert u S" using S by auto
  ultimately show ?thesis unfolding retained_def by blast
qed

lemma retained_evict:
  assumes "retained t v S c" and "u \<noteq> t" and "distinct (map fst c)"
    and "u \<notin> fst ` set c" and "finite S" and "card (insert u S) < length c"
  shows "retained t v (insert u S) ((u, r) # butlast c)"
proof -
  from assms(1) obtain pre post
    where c: "c = pre @ (t, v) # post" and t: "t \<notin> fst ` set pre" and S: "fst ` set pre \<subseteq> S"
    unfolding retained_def by blast
  have "post \<noteq> []"
  proof
    assume "post = []"
    with c have len: "length c = Suc (length pre)" by simp
    have d: "distinct (map fst pre)" using assms(3) c by simp
    have "u \<notin> fst ` set pre" using assms(4) c by auto
    have "card (fst ` set pre) = length pre"
      using distinct_card [OF d] by simp
    with \<open>u \<notin> fst ` set pre\<close> have "card (insert u (fst ` set pre)) = Suc (length pre)"
      by simp
    moreover have "insert u (fst ` set pre) \<subseteq> insert u S" using S by auto
    then have "card (insert u (fst ` set pre)) \<le> card (insert u S)"
      using assms(5) by (intro card_mono) auto
    ultimately show False using assms(6) len by simp
  qed
  then have "butlast c = pre @ (t, v) # butlast post"
    using c by (simp add: butlast_append)
  then have "retained t v S (butlast c)"
    using t S unfolding retained_def by blast
  from retained_insert [OF this assms(2)] show ?thesis .
qed

lemma retained_mono: "retained t v S c \<Longrightarrow> S \<subseteq> S' \<Longrightarrow> retained t v S' c"
  unfolding retained_def by blast

lemma retained_step:
  assumes ok: "cache_ok (cache w)" and ret: "retained t v S (cache w)"
    and fin: "finite S" and card: "card (if u = t then S else insert u S) < maxsize"
  shows "retained t v (if u = t then S else insert u S) (cache (snd (get_authorised_form_list e u w)))
         \<and> count_list (trace (snd (get_authorised_form_list e u w))) (AuthFetch t)
             = count_list (trace w) (AuthFetch t)"
proof (cases "u = t")
  case True
  from ret have m: "map_of (cache w) t = Some v" by (rule retained_map_of)
  have "retained t v S ((t, v) # filter (\<lambda>kv. fst kv \<noteq> t) (cache w))"
    unfolding retained_def by (rule exI [of _ "[]"]) simp
  with True m show ?thesis by (simp add: hit_result)
next
  case False
  with card have card': "card (insert u S) < maxsize" by simp
  have "retained t v (insert u S) (cache (snd (get_authorised_form_list e u w)))
         \<and> count_list (trace (snd (get_authorised_form_list e u w))) (AuthFetch t)
             = count_list (trace w) (AuthFetch t)"
  proof (cases "map_of (cache w) u")
    case (Some r)
    from retained_hit_other [OF ret False, of r] Some show ?thesis
      by (simp add: hit_result)
  next
    case None
    then have notin: "u \<notin> fst ` set (cache w)" by (simp add: map_of_eq_None_iff)
    have keep: "retained t v (insert u S) (cache w)"
      using ret by (rule retained_mono) auto
    have ins: "retained t v (insert u S)
                 ((u, r) # (if maxsize \<le> length (cache w) then butlast (cache w) else cache w))" for r
    proof (cases "maxsize \<le> length (cache w)")
      case True
      then have "card (insert u S) < length (cache w)" using card' by simp
      from retained_evict [OF ret False _ notin fin this] ok True
      show ?thesis by (simp add: cache_ok_def)
    next
      case False
      with retained_insert [OF ret \<open>u \<noteq> t\<close>] show ?thesis by simp
    qed
    show ?thesis
      using None False keep ins
      by (auto simp: miss_result count_fetch_snoc split: sum.splits)
  qed
  with False show ?thesis by simp
qed

lemma lookups_retained:
  assumes "cache_ok (cache w)" and "retained t v S (cache w)" and "finite S"
    and "card (S \<union> (set (map snd others) - {t})) < maxsize"
  shows "retained t v (S \<union> (set (map snd others) - {t})) (cache (lookups others w))
         \<and> cache_ok (cache (lookups others w))
         \<and> count_list (trace (lookups others w)) (AuthFetch t) = count_list (trace w) (AuthFetch t)"
  using assms
proof (induction others arbitrary: w S)
  case Nil
  then show ?case by simp
next
  case (Cons eu rest)
  obtain e u where eu: "eu = (e, u)" by (cases eu)
  let ?w = "snd (get_authorised_form_list e u w)"
  let ?S = "if u = t then S else insert u S"
  have sub: "?S \<subseteq> S \<union> (set (map snd (eu # rest)) - {t})" using eu by auto
  have fin: "finite (S \<union> (set (map snd (eu # rest)) - {t}))" using Cons.prems(3) by simp
  have "card ?S \<le> card (S \<union> (set (map snd (eu # rest)) - {t}))"
    using sub fin by (rule card_mono [rotated])
  then have c1: "card ?S < maxsize" using Cons.prems(4) by simp
  from retained_step [OF Cons.prems(1,2,3) c1, of e]
  have r1: "retained t v ?S (cache ?w)"
    and t1: "count_list (trace ?w) (AuthFetch t) = count_list (trace w) (AuthFetch t)"
    by simp_all
  have ok1: "cache_ok (cache ?w)" using Cons.prems(1) by (rule cache_ok_step)
  have eq: "?S \<union> (set (map snd rest) - {t}) = S \<union> (set (map snd (eu # rest)) - {t})"
    using eu by auto
  have c2: "card (?S \<union> (set (map snd rest) - {t})) < maxsize"
    using Cons.prems(4) eq by simp
  have fin1: "finite ?S" using Cons.prems(3) by simp
  from Cons.IH [OF ok1 r1 fin1 c2] eq t1 eu
  show ?case by simp
qed

lemma lookups_cache_ok: "cache_ok (cache w) \<Longrightarrow> cache_ok (cache (lookups others w))"
proof (induction others arbitrary: w)
  case Nil
  then show ?case by simp
next
  case (Cons eu rest)
  obtain e u where eu: "eu = (e, u)" by (cases eu)
  from Cons.prems have "cache_ok (cache (snd (get_authorised_form_list e u w)))"
    by (rule cache_ok_step)
  from Cons.IH [OF this] eu show ?case by simp
qed

lemma lookup_caches:
  assumes "get_authorised_form_list e t w = (Inr v, w1)"
  shows "retained t v {} (cache w1)"
proof (cases "map_of (cache w) t")
  case None
  with assms obtain rest where "cache w1 = (t, v) # rest"
    by (auto simp: miss_result split: sum.splits)
  then have "cache w1 = [] @ (t, v) # rest" by simp
  then show ?thesis unfolding retained_def by (metis empty_iff image_empty list.set(1) subset_refl)
next
  case (Some r)
  with assms obtain rest where "cache w1 = (t, v) # rest"
    by (auto simp: hit_result)
  then have "cache w1 = [] @ (t, v) # rest" by simp
  then show ?thesis unfolding retained_def by (metis empty_iff image_empty list.set(1) subset_refl)
qed

lemma hit_no_call:
  assumes "retained t v S (cache w)"
  shows "fst (get_authorised_form_list e t w) = Inr v
         \<and> trace (snd (get_authorised_form_list e t w)) = trace w"
  using retained_map_of [OF assms] by (simp add: hit_result)

lemma example_full_cache_ok: "cache_ok example_full_cache"
proof -
  have "inj_on (\<lambda>n. replicate (Suc n) CHR ''k'') (set [0..<32])"
    by (rule inj_onI) (metis length_replicate nat.inject)
  then have "distinct (map (\<lambda>n. replicate (Suc n) CHR ''k'') [0..<32])"
    by (simp add: distinct_map)
  then show ?thesis
    by (simp add: cache_ok_def example_full_cache_def maxsize_def comp_def)
qed

lemma example_full_cache_miss: "map_of example_full_cache ''reviewer'' = None"
  by (auto simp: map_of_eq_None_iff example_full_cache_def)

text \<open>
  C3: the result of \<open>get_authorised_form_list\<close> is memoized under the exact token. After
  a lookup that returned \<open>response\<close>, the cache has one entry per token and at most 32
  entries; after any further lookups that involve fewer than 32 distinct other tokens,
  a lookup of the token returns \<open>response\<close> again, whatever the provider would answer by
  then, records no call, and the number of remote fetches for the token has not grown;
  and a token that is new to a cache of 32 entries takes the front place while the
  last entry, the least recently used one, is dropped.
\<close>

theorem authorised_form_list_memoized:
  assumes "cache_ok (cache w)"
    and "get_authorised_form_list e token w = (Inr response, w1)"
  shows "distinct (map fst (cache w1)) \<and> length (cache w1) \<le> 32
     \<and> (\<forall>others e'. card (set (map snd others) - {token}) < 32 \<longrightarrow>
           fst (get_authorised_form_list e' token (lookups others w1)) = Inr response
         \<and> trace (snd (get_authorised_form_list e' token (lookups others w1))) = trace (lookups others w1)
         \<and> count_list (trace (lookups others w1)) (AuthFetch token) = count_list (trace w1) (AuthFetch token)
         \<and> length (cache (lookups others w1)) \<le> 32)
     \<and> (map_of (cache w) token = None \<longrightarrow> length (cache w) = 32 \<longrightarrow>
           cache w1 = (token, response) # butlast (cache w))"
proof -
  have ok1: "cache_ok (cache w1)"
    using cache_ok_step [OF assms(1), of e token] assms(2) by simp
  have ret: "retained token response {} (cache w1)"
    using assms(2) by (rule lookup_caches)
  have seq: "fst (get_authorised_form_list e' token (lookups others w1)) = Inr response
         \<and> trace (snd (get_authorised_form_list e' token (lookups others w1))) = trace (lookups others w1)
         \<and> count_list (trace (lookups others w1)) (AuthFetch token) = count_list (trace w1) (AuthFetch token)
         \<and> length (cache (lookups others w1)) \<le> 32"
    if "card (set (map snd others) - {token}) < 32" for others e'
  proof -
    from that have "card ({} \<union> (set (map snd others) - {token})) < maxsize"
      by (simp add: maxsize_def)
    from lookups_retained [OF ok1 ret _ this]
    have r: "retained token response ({} \<union> (set (map snd others) - {token})) (cache (lookups others w1))"
      and k: "cache_ok (cache (lookups others w1))"
      and c: "count_list (trace (lookups others w1)) (AuthFetch token) = count_list (trace w1) (AuthFetch token)"
      by simp_all
    from hit_no_call [OF r, of e'] k c show ?thesis
      by (simp add: cache_ok_def maxsize_def)
  qed
  have evict: "cache w1 = (token, response) # butlast (cache w)"
    if "map_of (cache w) token = None" "length (cache w) = 32"
    using that assms(2) by (auto simp: miss_result maxsize_def split: sum.splits)
  from ok1 seq evict show ?thesis
    by (simp add: cache_ok_def maxsize_def)
qed


theorem authorised_form_list_memoized_witness:
  "cache_ok (cache example_full_world)
   \<and> length (cache example_full_world) = 32
   \<and> map_of (cache example_full_world) ''reviewer'' = None
   \<and> fst (get_authorised_form_list example_env ''reviewer'' example_full_world)
       = Inr (PList [PDict [(''formName'', PStr ''Permit'')]])
   \<and> cache (snd (get_authorised_form_list example_env ''reviewer'' example_full_world))
       = (''reviewer'', PList [PDict [(''formName'', PStr ''Permit'')]]) # butlast example_full_cache
   \<and> length (cache (snd (get_authorised_form_list example_env ''reviewer'' example_full_world))) \<le> 32
   \<and> fst (get_authorised_form_list silent_env ''reviewer''
            (lookups [(example_env, ''guest'')]
               (snd (get_authorised_form_list example_env ''reviewer'' example_full_world))))
       = Inr (PList [PDict [(''formName'', PStr ''Permit'')]])"
proof -
  let ?r = "PList [PDict [(''formName'', PStr ''Permit'')]]"
  let ?w1 = "snd (get_authorised_form_list example_env ''reviewer'' example_full_world)"
  have ok: "cache_ok (cache example_full_world)"
    by (simp add: example_full_world_def example_full_cache_ok)
  have miss: "map_of (cache example_full_world) ''reviewer'' = None"
    by (simp add: example_full_world_def example_full_cache_miss)
  have len: "length (cache example_full_world) = 32"
    by (simp add: example_full_world_def example_full_cache_def)
  have l: "get_authorised_form_list example_env ''reviewer'' example_full_world = (Inr ?r, ?w1)"
    using miss by (simp add: miss_result example_env_def)
  have c: "card (set (map snd [(example_env, ''guest'')]) - {''reviewer''}) < 32" by simp
  note m = authorised_form_list_memoized [OF ok l]
  from m have bound: "length (cache ?w1) \<le> 32" by blast
  from m miss len have evict: "cache ?w1 = (''reviewer'', ?r) # butlast (cache example_full_world)"
    by blast
  from m c have again: "fst (get_authorised_form_list silent_env ''reviewer''
            (lookups [(example_env, ''guest'')] ?w1)) = Inr ?r"
    by blast
  have f: "fst (get_authorised_form_list example_env ''reviewer'' example_full_world) = Inr ?r"
    using arg_cong [OF l, of fst] by simp
  from ok len miss f bound evict again show ?thesis
    by (simp add: example_full_world_def)
qed

section \<open>The authorization-scoped reads\<close>

lemma reads_fail_closed:
  assumes "get_authorised_form_list e token w = (Inr auth, w1)" and "\<not> truthy auth"
  shows "(\<forall>f f'. coerce_filters f = Inr f' \<longrightarrow>
            get_auth_applications_and_count e token f w = (Inr (Counted (PList []) 0), w1))
       \<and> (\<forall>page_no limit pl. coerce_page page_no limit = Inr pl \<longrightarrow>
            get_all_application_count e token page_no limit w = (Inr (Counted (PList []) 0), w1))
       \<and> (\<forall>application_id.
            get_auth_by_application_id e application_id token w
              = (Inr (WithStatus (PDict []) FORBIDDEN), w1))"
  using assms
  by (auto simp: get_auth_applications_and_count_def get_all_application_count_def
        get_auth_by_application_id_def dump_many_def dump_one_def)

lemma lookup_finds:
  "finds (trace (snd (get_authorised_form_list e token w))) = finds (trace w)"
  by (auto simp: get_authorised_form_list_def finds_def Let_def split: option.splits sum.splits)

lemma int_of_str_1: "int_of_str ''1'' = Inr 1"
  by (simp add: int_of_str_def strip_def is_space_def is_digit_def digits_value_def digit_val_def
        max_str_digits_def)

text \<open>
  C2: when the lookup of the caller's authorized forms yields an empty (falsy) answer,
  \<open>get_auth_applications_and_count\<close> and \<open>get_all_application_count\<close> return the empty
  serialized list with count 0 (for arguments that pass the coercions, which come
  before the lookup), \<open>get_auth_by_application_id\<close> returns the empty body with the
  status \<open>FORBIDDEN\<close>, and the state is the one the lookup left: no find operation
  of the repository has been called.
\<close>

theorem empty_authorisation_fails_closed:
  assumes "get_authorised_form_list e token w = (Inr auth, w1)" and "\<not> truthy auth"
  shows "(\<forall>f f'. coerce_filters f = Inr f' \<longrightarrow>
            get_auth_applications_and_count e token f w = (Inr (Counted (PList []) 0), w1))
       \<and> (\<forall>page_no limit pl. coerce_page page_no limit = Inr pl \<longrightarrow>
            get_all_application_count e token page_no limit w = (Inr (Counted (PList []) 0), w1))
       \<and> (\<forall>application_id.
            get_auth_by_application_id e application_id token w
              = (Inr (WithStatus (PDict []) FORBIDDEN), w1))
       \<and> finds (trace w1) = finds (trace w)"
  using reads_fail_closed [OF assms] lookup_finds [of e token w] assms(1) by simp

theorem empty_authorisation_fails_closed_witness:
  "get_auth_applications_and_count example_env ''guest'' example_filters example_world
     = (Inr (Counted (PList []) 0),
        \<lparr> store = [], cache = [(''guest'', PList [])], trace = [AuthFetch ''guest''] \<rparr>)
   \<and> get_all_application_count example_env ''guest'' (QStr ''1'') (QInt 5) example_world
     = (Inr (Counted (PList []) 0),
        \<lparr> store = [], cache = [(''guest'', PList [])], trace = [AuthFetch ''guest''] \<rparr>)
   \<and> get_auth_by_application_id example_env (QInt 3) ''guest'' example_world
     = (Inr (WithStatus (PDict []) FORBIDDEN),
        \<lparr> store = [], cache = [(''guest'', PList [])], trace = [AuthFetch ''guest''] \<rparr>)
   \<and> finds [AuthFetch ''guest''] = 0"
proof -
  have l: "get_authorised_form_list example_env ''guest'' example_world
             = (Inr (PList []), \<lparr> store = [], cache = [(''guest'', PList [])], trace = [AuthFetch ''guest''] \<rparr>)"
    by (simp add: get_authorised_form_list_def example_env_def example_world_def maxsize_def)
  have f: "\<not> truthy (PList [])" by simp
  have cf: "\<exists>f'. coerce_filters example_filters = Inr f'"
    by (simp add: coerce_filters_def and_then_def coerce_int_def coerce_str_def example_filters_def
          int_of_str_1)
  have cp: "\<exists>pl. coerce_page (QStr ''1'') (QInt 5) = Inr pl"
    by (simp add: coerce_page_def and_then_def coerce_int_def int_of_str_1)
  from empty_authorisation_fails_closed [OF l f] cf cp
  show ?thesis by (auto simp: finds_def example_world_def)
qed

text \<open>
  C10: a falsy answer of the provider is memoized like any other. After a lookup that
  returned the falsy \<open>auth\<close>, the entry is in the cache; and after any further lookups
  that involve fewer than 32 distinct other tokens, every authorization-scoped read for
  the token gives the fail-closed result (empty list with count 0, or the empty body
  with \<open>FORBIDDEN\<close>), whatever the provider would answer by then, and records no call:
  the provider has not been contacted for the token again.
\<close>

theorem cached_falsy_answer_fails_closed:
  assumes "cache_ok (cache w)"
    and "get_authorised_form_list e token w = (Inr auth, w1)"
    and "\<not> truthy auth"
    and "card (set (map snd others) - {token}) < 32"
  shows "map_of (cache w1) token = Some auth
     \<and> count_list (trace (lookups others w1)) (AuthFetch token) = count_list (trace w1) (AuthFetch token)
     \<and> (\<forall>e'. \<exists>w2.
           get_authorised_form_list e' token (lookups others w1) = (Inr auth, w2)
         \<and> trace w2 = trace (lookups others w1)
         \<and> (\<forall>f f'. coerce_filters f = Inr f' \<longrightarrow>
               get_auth_applications_and_count e' token f (lookups others w1)
                 = (Inr (Counted (PList []) 0), w2))
         \<and> (\<forall>page_no limit pl. coerce_page page_no limit = Inr pl \<longrightarrow>
               get_all_application_count e' token page_no limit (lookups others w1)
                 = (Inr (Counted (PList []) 0), w2))
         \<and> (\<forall>application_id.
               get_auth_by_application_id e' application_id token (lookups others w1)
                 = (Inr (WithStatus (PDict []) FORBIDDEN), w2)))"
proof -
  have ok1: "cache_ok (cache w1)"
    using cache_ok_step [OF assms(1), of e token] assms(2) by simp
  have ret: "retained token auth {} (cache w1)"
    using assms(2) by (rule lookup_caches)
  from assms(4) have "card ({} \<union> (set (map snd others) - {token})) < maxsize"
    by (simp add: maxsize_def)
  from lookups_retained [OF ok1 ret _ this]
  have r: "retained token auth ({} \<union> (set (map snd others) - {token})) (cache (lookups others w1))"
    and c: "count_list (trace (lookups others w1)) (AuthFetch token) = count_list (trace w1) (AuthFetch token)"
    by simp_all
  have later: "\<exists>w2.
           get_authorised_form_list e' token (lookups others w1) = (Inr auth, w2)
         \<and> trace w2 = trace (lookups others w1)
         \<and> (\<forall>f f'. coerce_filters f = Inr f' \<longrightarrow>
               get_auth_applications_and_count e' token f (lookups others w1)
                 = (Inr (Counted (PList []) 0), w2))
         \<and> (\<forall>page_no limit pl. coerce_page page_no limit = Inr pl \<longrightarrow>
               get_all_application_count e' token page_no limit (lookups others w1)
                 = (Inr (Counted (PList []) 0), w2))
         \<and> (\<forall>application_id.
               get_auth_by_application_id e' application_id token (lookups others w1)
                 = (Inr (WithStatus (PDict []) FORBIDDEN), w2))" for e'
  proof -
    let ?w2 = "snd (get_authorised_form_list e' token (lookups others w1))"
    from hit_no_call [OF r, of e']
    have l: "get_authorised_form_list e' token (lookups others w1) = (Inr auth, ?w2)"
      and t: "trace ?w2 = trace (lookups others w1)"
      by (simp_all add: prod_eq_iff)
    from reads_fail_closed [OF l assms(3)] l t show ?thesis by blast
  qed
  from retained_map_of [OF ret] c later show ?thesis by blast
qed

theorem cached_falsy_answer_fails_closed_witness:
  "get_authorised_form_list example_env ''guest'' example_world
     = (Inr (PList []), \<lparr> store = [], cache = [(''guest'', PList [])], trace = [AuthFetch ''guest''] \<rparr>)
   \<and> get_auth_applications_and_count generous_env ''guest'' example_filters
        (lookups [(generous_env, ''reviewer'')]
           \<lparr> store = [], cache = [(''guest'', PList [])], trace = [AuthFetch ''guest''] \<rparr>)
     = (Inr (Counted (PList []) 0),
        \<lparr> store = [],
          cache = [(''guest'', PList []), (''reviewer'', PList [PDict [(''formName'', PStr ''Permit'')]])],
          trace = [AuthFetch ''guest'', AuthFetch ''reviewer''] \<rparr>)
   \<and> get_auth_by_application_id generous_env (QInt 3) ''guest''
        (lookups [(generous_env, ''reviewer'')]
           \<lparr> store = [], cache = [(''guest'', PList [])], trace = [AuthFetch ''guest''] \<rparr>)
     = (Inr (WithStatus (PDict []) FORBIDDEN),
        \<lparr> store = [],
          cache = [(''guest'', PList []), (''reviewer'', PList [PDict [(''formName'', PStr ''Permit'')]])],
          trace = [AuthFetch ''guest'', AuthFetch ''reviewer''] \<rparr>)"
proof -
  let ?w1 = "\<lparr> store = [], cache = [(''guest'', PList [])], trace = [AuthFetch ''guest''] \<rparr>"
  have ok: "cache_ok (cache example_world)"
    by (simp add: cache_ok_def example_world_def)
  have l: "get_authorised_form_list example_env ''guest'' example_world = (Inr (PList []), ?w1)"
    by (simp add: get_authorised_form_list_def example_env_def example_world_def maxsize_def)
  have f: "\<not> truthy (PList [])" by simp
  have c: "card (set (map snd [(generous_env, ''reviewer'')]) - {''guest''}) < 32" by simp
  have cf: "\<exists>f'. coerce_filters example_filters = Inr f'"
    by (simp add: coerce_filters_def and_then_def coerce_int_def coerce_str_def example_filters_def
          int_of_str_1)
  have w2: "get_authorised_form_list generous_env ''guest'' (lookups [(generous_env, ''reviewer'')] ?w1)
      = (Inr (PList []), \<lparr> store = [],
          cache = [(''guest'', PList []), (''reviewer'', PList [PDict [(''formName'', PStr ''Permit'')]])],
          trace = [AuthFetch ''guest'', AuthFetch ''reviewer''] \<rparr>)"
    by (simp add: get_authorised_form_list_def generous_env_def example_env_def maxsize_def)
  let ?w = "lookups [(generous_env, ''reviewer'')] ?w1"
  note m = cached_falsy_answer_fails_closed [OF ok l f c]
  from m have "\<exists>w2.
           get_authorised_form_list generous_env ''guest'' ?w = (Inr (PList []), w2)
         \<and> trace w2 = trace ?w
         \<and> (\<forall>f f'. coerce_filters f = Inr f' \<longrightarrow>
               get_auth_applications_and_count generous_env ''guest'' f ?w
                 = (Inr (Counted (PList []) 0), w2))
         \<and> (\<forall>page_no limit pl. coerce_page page_no limit = Inr pl \<longrightarrow>
               get_all_application_count generous_env ''guest'' page_no limit ?w
                 = (Inr (Counted (PList []) 0), w2))
         \<and> (\<forall>application_id.
               get_auth_by_application_id generous_env application_id ''guest'' ?w
                 = (Inr (WithStatus (PDict []) FORBIDDEN), w2))"
    by (elim conjE allE [of _ generous_env])
  then obtain w2'
    where a: "get_authorised_form_list generous_env ''guest'' ?w = (Inr (PList []), w2')"
      and b: "\<And>f f'. coerce_filters f = Inr f' \<Longrightarrow>
               get_auth_applications_and_count generous_env ''guest'' f ?w
                 = (Inr (Counted (PList []) 0), w2')"
      and d: "\<And>application_id.
               get_auth_by_application_id generous_env application_id ''guest'' ?w
                 = (Inr (WithStatus (PDict []) FORBIDDEN), w2')"
    by (elim exE conjE) blast
  from cf obtain f' where "coerce_filters example_filters = Inr f'" ..
  note b' = b [OF this]
  from a w2 have "w2' = \<lparr> store = [],
          cache = [(''guest'', PList []), (''reviewer'', PList [PDict [(''formName'', PStr ''Permit'')]])],
          trace = [AuthFetch ''guest'', AuthFetch ''reviewer''] \<rparr>"
    by simp
  with l b' d [of "QInt 3"] show ?thesis by simp
qed

section \<open>Coercion of the filter and paging arguments\<close>

declare digits_of_nat.simps [simp del]

lemma digit_char: "d < 10 \<Longrightarrow> is_digit (char_of (48 + d)) \<and> digit_val (char_of (48 + d)) = d
    \<and> char_of (48 + d) \<noteq> CHR ''_'' \<and> \<not> is_space (char_of (48 + d))
    \<and> char_of (48 + d) \<noteq> CHR ''-'' \<and> char_of (48 + d) \<noteq> CHR ''+''"
proof -
  assume d: "d < 10"
  then have m: "(48 + d) mod 256 = 48 + d" by simp
  have oc: "of_char (char_of (48 + d)) = 48 + d" using m by simp
  have ne: "char_of (48 + d) \<noteq> c" if "of_char c < (48::nat) \<or> (57::nat) < of_char c" for c
  proof
    assume "char_of (48 + d) = c"
    with oc have "(of_char c :: nat) = 48 + d" by simp
    with that d show False by simp
  qed
  show ?thesis
    using oc d ne [of "CHR ''_''"] ne [of "CHR ''-''"] ne [of "CHR ''+''"]
      ne [of "CHR '' ''"] ne [of "CHR 0x09"] ne [of "CHR 0x0A"] ne [of "CHR 0x0B"]
      ne [of "CHR 0x0C"] ne [of "CHR 0x0D"] ne [of "CHR 0x85"] ne [of "CHR 0xA0"]
    by (simp add: is_digit_def digit_val_def is_space_def)
qed

lemma digits_of_nat_plain: "digits_of_nat n \<noteq> [] \<and> (\<forall>c\<in>set (digits_of_nat n). plain_digit c)"
proof (induction n rule: digits_of_nat.induct)
  case (1 n)
  show ?case
  proof (cases "n < 10")
    case True
    with digit_char [of n] show ?thesis
      by (simp add: digits_of_nat.simps [of n] plain_digit_def)
  next
    case False
    have "n mod 10 < 10" by simp
    from digit_char [OF this] have "plain_digit (char_of (48 + n mod 10))"
      by (simp add: plain_digit_def)
    with False "1.IH" show ?thesis
      by (simp add: digits_of_nat.simps [of n])
  qed
qed

lemma valid_digits_plain: "s \<noteq> [] \<Longrightarrow> \<forall>c\<in>set s. plain_digit c \<Longrightarrow> valid_digits s"
  by (induction s rule: valid_digits.induct) (auto simp: plain_digit_def)

lemma digits_value_snoc:
  "c \<noteq> CHR ''_'' \<Longrightarrow> digits_value (s @ [c]) = 10 * digits_value s + digit_val c"
  by (simp add: digits_value_def)

lemma digits_value_digits_of_nat: "digits_value (digits_of_nat n) = n"
proof (induction n rule: digits_of_nat.induct)
  case (1 n)
  show ?case
  proof (cases "n < 10")
    case True
    with digit_char [of n] show ?thesis
      by (simp add: digits_of_nat.simps [of n] digits_value_def)
  next
    case False
    have "n mod 10 < 10" by simp
    from digit_char [OF this]
    have "char_of (48 + n mod 10) \<noteq> CHR ''_''" and "digit_val (char_of (48 + n mod 10)) = n mod 10"
      by simp_all
    with False "1.IH" show ?thesis
      by (simp add: digits_of_nat.simps [of n] digits_value_snoc)
  qed
qed

lemma strip_id:
  assumes "s \<noteq> []" and "\<not> is_space (hd s)" and "\<not> is_space (last s)"
  shows "strip s = s"
proof -
  from assms(1,2) have a: "dropWhile is_space s = s" by (cases s) simp_all
  from assms(1,3) have b: "dropWhile is_space (rev s) = rev s"
    by (cases "rev s") (simp_all add: last_rev [symmetric] hd_rev)
  show ?thesis by (simp add: strip_def a b)
qed

lemma digits_of_nat_count: "length (filter is_digit (digits_of_nat n)) = length (digits_of_nat n)"
proof -
  have "\<forall>c\<in>set (digits_of_nat n). is_digit c"
    using digits_of_nat_plain [of n] by (simp add: plain_digit_def)
  then have "filter is_digit (digits_of_nat n) = digits_of_nat n" by simp
  then show ?thesis by simp
qed

lemma int_of_str_str_of_int:
  assumes "length (digits_of_nat (nat \<bar>n\<bar>)) \<le> max_str_digits"
  shows "int_of_str (str_of_int n) = Inr n"
proof -
  let ?d = "digits_of_nat (nat \<bar>n\<bar>)"
  from digits_of_nat_plain [of "nat \<bar>n\<bar>"]
  have ne: "?d \<noteq> []" and pl: "\<forall>c\<in>set ?d. plain_digit c" by simp_all
  from ne pl have hd: "plain_digit (hd ?d)" and la: "plain_digit (last ?d)" by simp_all
  have v: "valid_digits ?d" using ne pl by (rule valid_digits_plain)
  have val: "digits_value ?d = nat \<bar>n\<bar>" by (rule digits_value_digits_of_nat)
  have cnt: "length (filter is_digit ?d) \<le> max_str_digits"
    using assms by (simp add: digits_of_nat_count)
  show ?thesis
  proof (cases "n < 0")
    case True
    then have s: "str_of_int n = CHR ''-'' # ?d" by (simp add: str_of_int_def)
    have "strip (CHR ''-'' # ?d) = CHR ''-'' # ?d"
      using ne la by (intro strip_id) (simp_all add: plain_digit_def is_space_def)
    with s v val cnt True show ?thesis by (simp add: int_of_str_def)
  next
    case False
    then have s: "str_of_int n = ?d" by (simp add: str_of_int_def)
    have "strip ?d = ?d"
      using ne hd la by (intro strip_id) (simp_all add: plain_digit_def)
    with s v val cnt False ne hd show ?thesis by (simp add: int_of_str_def plain_digit_def)
  qed
qed

lemma str_of_int_nonempty: "str_of_int n \<noteq> []"
  using digits_of_nat_plain [of "nat n"] digits_of_nat_plain [of "nat (- n)"]
  by (simp add: str_of_int_def)

lemma coerce_int_falsy: "\<not> truthy_arg x \<Longrightarrow> coerce_int x = Inr x"
  by (simp add: coerce_int_def)

lemma coerce_str_falsy: "\<not> truthy_arg x \<Longrightarrow> coerce_str x = Inr x"
  by (simp add: coerce_str_def)

lemma coerce_int_int: "coerce_int (QInt n) = Inr (QInt n)"
  by (simp add: coerce_int_def)

lemma coerce_int_numeric_string:
  "length (digits_of_nat (nat \<bar>n\<bar>)) \<le> max_str_digits \<Longrightarrow>
     coerce_int (QStr (str_of_int n)) = Inr (QInt n)"
  using int_of_str_str_of_int [of n] str_of_int_nonempty [of n]
  by (simp add: coerce_int_def)

lemma coerce_str_text: "s \<noteq> [] \<Longrightarrow> coerce_str (QStr s) = Inr (QStr s)"
  by (simp add: coerce_str_def)

lemma coerce_str_int:
  "n \<noteq> 0 \<Longrightarrow> length (digits_of_nat (nat \<bar>n\<bar>)) \<le> max_str_digits \<Longrightarrow>
     coerce_str (QInt n) = Inr (QStr (str_of_int n))"
  by (simp add: coerce_str_def)

lemma coerce_int_error: "coerce_int x = Inl err \<Longrightarrow> err = ValueError"
  by (cases x) (auto simp: coerce_int_def int_of_str_def Let_def split: if_splits sum.splits)

lemma coerce_str_error: "coerce_str x = Inl err \<Longrightarrow> err = ValueError"
  by (cases x) (auto simp: coerce_str_def split: if_splits sum.splits)

lemma coerce_int_result: "coerce_int x = Inr y \<Longrightarrow> truthy_arg y = truthy_arg x \<or> (\<exists>n. y = QInt n)"
  by (auto simp: coerce_int_def split: if_splits sum.splits)

lemma coerce_filters_iff:
  "coerce_filters f = Inr f' \<longleftrightarrow>
     (\<exists>page_no limit order_by application_id application_name application_status created_by
        sort_order.
        coerce_int (page_no_arg f) = Inr page_no
      \<and> coerce_int (limit_arg f) = Inr limit
      \<and> coerce_str (order_by_arg f) = Inr order_by
      \<and> coerce_int (application_id_arg f) = Inr application_id
      \<and> coerce_str (application_name_arg f) = Inr application_name
      \<and> coerce_str (application_status_arg f) = Inr application_status
      \<and> coerce_str (created_by_arg f) = Inr created_by
      \<and> coerce_str (sort_order_arg f) = Inr sort_order
      \<and> f' = f\<lparr>page_no_arg := page_no, limit_arg := limit, order_by_arg := order_by,
                 application_id_arg := application_id, application_name_arg := application_name,
                 application_status_arg := application_status, created_by_arg := created_by,
                 sort_order_arg := sort_order\<rparr>)"
  by (auto simp: coerce_filters_def and_then_def split: sum.splits)

lemma coerce_filters_by_user_iff:
  "coerce_filters_by_user f = Inr f' \<longleftrightarrow>
     (\<exists>page_no limit order_by application_id application_name application_status created_by
        sort_order.
        coerce_int (page_no_arg f) = Inr page_no
      \<and> coerce_int (limit_arg f) = Inr limit
      \<and> coerce_str (order_by_arg f) = Inr order_by
      \<and> coerce_int (application_id_arg f) = Inr application_id
      \<and> coerce_str (application_name_arg f) = Inr application_name
      \<and> coerce_str (application_status_arg f) = Inr application_status
      \<and> coerce_str (created_by_arg f) = Inr created_by
      \<and> coerce_str (sort_order_arg f) = Inr sort_order
      \<and> f' = f\<lparr>page_no_arg := page_no, limit_arg := limit, order_by_arg := order_by,
                 application_id_arg := application_id, application_name_arg := application_name,
                 application_status_arg := application_status, created_by_arg := created_by,
                 sort_order_arg := sort_order\<rparr>)"
  by (auto simp: coerce_filters_by_user_def and_then_def split: sum.splits)

lemma coerce_filters_error: "coerce_filters f = Inl err \<Longrightarrow> err = ValueError"
  by (auto simp: coerce_filters_def and_then_def split: sum.splits
           dest: coerce_int_error coerce_str_error)

lemma coerce_filters_by_user_error: "coerce_filters_by_user f = Inl err \<Longrightarrow> err = ValueError"
  by (auto simp: coerce_filters_by_user_def and_then_def split: sum.splits
           dest: coerce_int_error coerce_str_error)

lemma coerce_filters_by_user_eq: "coerce_filters_by_user f = coerce_filters f"
proof (cases "coerce_filters f")
  case (Inr f')
  then have "coerce_filters_by_user f = Inr f'"
    unfolding coerce_filters_iff coerce_filters_by_user_iff .
  with Inr show ?thesis by simp
next
  case (Inl err)
  then have e: "err = ValueError" by (rule coerce_filters_error)
  show ?thesis
  proof (cases "coerce_filters_by_user f")
    case (Inr f')
    then have "coerce_filters f = Inr f'"
      unfolding coerce_filters_iff coerce_filters_by_user_iff .
    with Inl show ?thesis by simp
  next
    case Inl': (Inl err')
    then have "err' = ValueError" by (rule coerce_filters_by_user_error)
    with Inl Inl' e show ?thesis by simp
  qed
qed

lemma coerce_filters_fields:
  assumes "coerce_filters f = Inr f'"
  shows "coerce_int (page_no_arg f) = Inr (page_no_arg f')
       \<and> coerce_int (limit_arg f) = Inr (limit_arg f')
       \<and> coerce_int (application_id_arg f) = Inr (application_id_arg f')
       \<and> coerce_str (order_by_arg f) = Inr (order_by_arg f')
       \<and> coerce_str (sort_order_arg f) = Inr (sort_order_arg f')
       \<and> coerce_str (application_name_arg f) = Inr (application_name_arg f')
       \<and> coerce_str (application_status_arg f) = Inr (application_status_arg f')
       \<and> coerce_str (created_by_arg f) = Inr (created_by_arg f')
       \<and> created_from_arg f' = created_from_arg f
       \<and> created_to_arg f' = created_to_arg f
       \<and> modified_from_arg f' = modified_from_arg f
       \<and> modified_to_arg f' = modified_to_arg f"
  using assms unfolding coerce_filters_iff by auto

lemma coerce_page_iff:
  "coerce_page page_no limit = Inr (p, l) \<longleftrightarrow> coerce_int page_no = Inr p \<and> coerce_int limit = Inr l"
  by (auto simp: coerce_page_def and_then_def split: sum.splits)

lemma filter_admits_same:
  "same_or_falsy v v' \<Longrightarrow> filter_admits e (k, v) a = filter_admits e (k, v') a"
  by (auto simp: same_or_falsy_def filter_admits_def)

lemma predicates_same:
  assumes "same_constraints f g"
  shows "list_all (\<lambda>kv. filter_admits e kv a) (filter_predicates f)
       = list_all (\<lambda>kv. filter_admits e kv a) (filter_predicates g)"
proof -
  from assms
  have "same_or_falsy (application_id_arg f) (application_id_arg g)"
    and "same_or_falsy (application_name_arg f) (application_name_arg g)"
    and "same_or_falsy (application_status_arg f) (application_status_arg g)"
    and "same_or_falsy (created_by_arg f) (created_by_arg g)"
    and "same_or_falsy (created_from_arg f) (created_from_arg g)"
    and "same_or_falsy (created_to_arg f) (created_to_arg g)"
    and "same_or_falsy (modified_from_arg f) (modified_from_arg g)"
    and "same_or_falsy (modified_to_arg f) (modified_to_arg g)"
    by (simp_all add: same_constraints_def)
  then show ?thesis
    by (simp add: filter_predicates_def filter_admits_same [of _ _ e _ a])
qed

lemma page_slice_falsy:
  "\<not> truthy_arg p \<or> \<not> truthy_arg l \<Longrightarrow> page_slice (p, l) rows = rows"
  by (cases p; cases l) (auto simp: page_slice_def)

lemma page_slice_same:
  "same_or_falsy p p' \<Longrightarrow> same_or_falsy l l' \<Longrightarrow> page_slice (p, l) rows = page_slice (p', l') rows"
  using page_slice_falsy [of p l rows] page_slice_falsy [of p' l' rows]
  by (auto simp: same_or_falsy_def)

lemma matching_by_user_same:
  assumes "same_constraints f g"
  shows "matching e (Find_all_by_user user_id f) rows = matching e (Find_all_by_user user_id g) rows"
  using assms predicates_same [OF assms, of e]
  by (simp add: matching_def same_constraints_def)

lemma matching_by_form_names_same:
  assumes "same_constraints f g"
  shows "matching e (Find_by_form_names names f) rows = matching e (Find_by_form_names names g) rows"
  using assms predicates_same [OF assms, of e]
  by (simp add: matching_def same_constraints_def)

lemma find_counted_same:
  assumes "same_constraints f g"
  shows "find_counted e (Find_all_by_user user_id f) rows = find_counted e (Find_all_by_user user_id g) rows"
    and "find_counted e (Find_by_form_names names f) rows = find_counted e (Find_by_form_names names g) rows"
proof -
  from assms have p: "same_or_falsy (page_no_arg f) (page_no_arg g)"
    and l: "same_or_falsy (limit_arg f) (limit_arg g)"
    by (simp_all add: same_constraints_def)
  show "find_counted e (Find_all_by_user user_id f) rows = find_counted e (Find_all_by_user user_id g) rows"
    by (simp add: find_counted_def matching_by_user_same [OF assms] page_slice_same [OF p l])
  show "find_counted e (Find_by_form_names names f) rows = find_counted e (Find_by_form_names names g) rows"
    by (simp add: find_counted_def matching_by_form_names_same [OF assms] page_slice_same [OF p l])
qed

lemma coerce_int_same:
  assumes "same_or_falsy x y" and "coerce_int x = Inr x'"
  shows "\<exists>y'. coerce_int y = Inr y' \<and> same_or_falsy x' y'"
  using assms by (auto simp: same_or_falsy_def coerce_int_def split: if_splits)

lemma coerce_str_same:
  assumes "same_or_falsy x y" and "coerce_str x = Inr x'"
  shows "\<exists>y'. coerce_str y = Inr y' \<and> same_or_falsy x' y'"
  using assms by (auto simp: same_or_falsy_def coerce_str_def split: if_splits)

lemma coerce_filters_same:
  assumes c: "coerce_filters f = Inr f'" and s: "same_constraints f g"
  shows "\<exists>g'. coerce_filters g = Inr g' \<and> same_constraints f' g'"
proof -
  note fl = coerce_filters_fields [OF c]
  from s have eq: "order_by_arg g = order_by_arg f" "sort_order_arg g = sort_order_arg f"
    by (simp_all add: same_constraints_def)
  from s fl obtain p where p: "coerce_int (page_no_arg g) = Inr p" "same_or_falsy (page_no_arg f') p"
    using coerce_int_same [of "page_no_arg f" "page_no_arg g"] by (auto simp: same_constraints_def)
  from s fl obtain l where l: "coerce_int (limit_arg g) = Inr l" "same_or_falsy (limit_arg f') l"
    using coerce_int_same [of "limit_arg f" "limit_arg g"] by (auto simp: same_constraints_def)
  from s fl obtain i where i: "coerce_int (application_id_arg g) = Inr i"
      "same_or_falsy (application_id_arg f') i"
    using coerce_int_same [of "application_id_arg f" "application_id_arg g"]
    by (auto simp: same_constraints_def)
  from s fl obtain n where n: "coerce_str (application_name_arg g) = Inr n"
      "same_or_falsy (application_name_arg f') n"
    using coerce_str_same [of "application_name_arg f" "application_name_arg g"]
    by (auto simp: same_constraints_def)
  from s fl obtain st where st: "coerce_str (application_status_arg g) = Inr st"
      "same_or_falsy (application_status_arg f') st"
    using coerce_str_same [of "application_status_arg f" "application_status_arg g"]
    by (auto simp: same_constraints_def)
  from s fl obtain cb where cb: "coerce_str (created_by_arg g) = Inr cb"
      "same_or_falsy (created_by_arg f') cb"
    using coerce_str_same [of "created_by_arg f" "created_by_arg g"]
    by (auto simp: same_constraints_def)
  from fl eq have ob: "coerce_str (order_by_arg g) = Inr (order_by_arg f')"
    and so: "coerce_str (sort_order_arg g) = Inr (sort_order_arg f')"
    by simp_all
  let ?g = "g\<lparr>page_no_arg := p, limit_arg := l, order_by_arg := order_by_arg f',
               application_id_arg := i, application_name_arg := n,
               application_status_arg := st, created_by_arg := cb,
               sort_order_arg := sort_order_arg f'\<rparr>"
  have "coerce_filters g = Inr ?g"
    unfolding coerce_filters_iff using p l i n st cb ob so by blast
  moreover have "same_constraints f' ?g"
    using s fl p l i n st cb by (simp add: same_constraints_def)
  ultimately show ?thesis by blast
qed

lemma by_user_same:
  assumes c: "coerce_filters f = Inr f'" and s: "same_constraints f g"
  shows "fst (get_all_applications_by_user e user_id f w)
       = fst (get_all_applications_by_user e user_id g w)"
proof -
  from coerce_filters_same [OF c s] obtain g'
    where g: "coerce_filters g = Inr g'" and s': "same_constraints f' g'" by blast
  from c g find_counted_same(1) [OF s', of e user_id "store w"] show ?thesis
    by (simp add: get_all_applications_by_user_def coerce_filters_by_user_eq split: prod.splits)
qed

lemma auth_same:
  assumes c: "coerce_filters f = Inr f'" and s: "same_constraints f g"
  shows "fst (get_auth_applications_and_count e token f w)
       = fst (get_auth_applications_and_count e token g w)"
proof -
  from coerce_filters_same [OF c s] obtain g'
    where g: "coerce_filters g = Inr g'" and s': "same_constraints f' g'" by blast
  from c g find_counted_same(2) [OF s', of e] show ?thesis
    by (simp add: get_auth_applications_and_count_def split: prod.splits sum.splits)
qed

lemma page_traces:
  assumes "coerce_int page_no = Inr p" and "coerce_int limit = Inr l"
  shows "trace (snd (get_all_applications e page_no limit w)) = trace w @ [RepoFind (Find_all p l)]"
    and "trace (snd (get_all_application_by_user_group e page_no limit user_id w))
           = trace w @ [RepoFind (Find_all_by_user_group user_id p l)]"
    and "trace (snd (get_all_applications_form_id e form_id page_no limit w))
           = trace w @ [RepoFind (Find_by_form_id form_id p l)]"
    and "trace (snd (get_all_applications_form_id_user e form_id user_id page_no limit w))
           = trace w @ [RepoFind (Find_by_form_id_user form_id user_id p l)]"
proof -
  from assms have c: "coerce_page page_no limit = Inr (p, l)" by (simp add: coerce_page_iff)
  show "trace (snd (get_all_applications e page_no limit w)) = trace w @ [RepoFind (Find_all p l)]"
    by (simp add: get_all_applications_def c called_def)
  show "trace (snd (get_all_application_by_user_group e page_no limit user_id w))
           = trace w @ [RepoFind (Find_all_by_user_group user_id p l)]"
    by (simp add: get_all_application_by_user_group_def c called_def)
  show "trace (snd (get_all_applications_form_id e form_id page_no limit w))
           = trace w @ [RepoFind (Find_by_form_id form_id p l)]"
    by (simp add: get_all_applications_form_id_def c called_def)
  show "trace (snd (get_all_applications_form_id_user e form_id user_id page_no limit w))
           = trace w @ [RepoFind (Find_by_form_id_user form_id user_id p l)]"
    by (simp add: get_all_applications_form_id_user_def c called_def)
qed

lemma count_trace:
  assumes "coerce_int page_no = Inr p" and "coerce_int limit = Inr l"
    and "get_authorised_form_list e token w = (Inr auth, w1)"
    and "truthy auth" and "form_names_of auth = Inr names"
  shows "trace (snd (get_all_application_count e token page_no limit w))
           = trace w1 @ [RepoFind (Find_all_applications names p l)]"
proof -
  from assms(1,2) have c: "coerce_page page_no limit = Inr (p, l)" by (simp add: coerce_page_iff)
  from assms(3-5) show ?thesis
    by (simp add: get_all_application_count_def c called_def Let_def)
qed

lemma by_user_trace:
  "coerce_filters f = Inr f' \<Longrightarrow>
     trace (snd (get_all_applications_by_user e user_id f w))
       = trace w @ [RepoFind (Find_all_by_user user_id f')]"
  by (simp add: get_all_applications_by_user_def coerce_filters_by_user_eq called_def
           split: prod.splits)

lemma auth_trace:
  assumes "coerce_filters f = Inr f'"
    and "get_authorised_form_list e token w = (Inr auth, w1)"
    and "truthy auth" and "form_names_of auth = Inr names"
  shows "trace (snd (get_auth_applications_and_count e token f w))
       = trace w1 @ [RepoFind (Find_by_form_names names f')]"
  using assms
  by (simp add: get_auth_applications_and_count_def called_def split: prod.splits)

lemma unpaged:
  assumes "\<not> truthy_arg (fst (paging_of c)) \<or> \<not> truthy_arg (snd (paging_of c))"
  shows "find_rows e c rows = matching e c rows"
    and "find_counted e c rows = (matching e c rows, int (length (matching e c rows)))"
  using page_slice_falsy [of "fst (paging_of c)" "snd (paging_of c)" "matching e c rows"] assms
  by (simp_all add: find_rows_def find_counted_def)

lemma digits_5: "length (digits_of_nat 5) \<le> max_str_digits"
  by (simp add: digits_of_nat.simps max_str_digits_def)

lemma str_of_int_5: "str_of_int 5 = ''5''"
  by code_simp

lemma int_of_str_2: "int_of_str ''2'' = Inr 2"
  by (simp add: int_of_str_def strip_def is_space_def is_digit_def digits_value_def digit_val_def
        max_str_digits_def)

lemma example_filters_coerced: "coerce_filters example_filters = Inr example_coerced"
  by (simp add: coerce_filters_def and_then_def coerce_int_def coerce_str_def example_filters_def
        example_coerced_def int_of_str_1)

lemma example_paged_filters_coerced: "coerce_filters example_paged_filters = Inr example_paged_coerced"
  by (simp add: coerce_filters_def and_then_def coerce_int_def coerce_str_def example_filters_def
        example_coerced_def example_paged_filters_def example_paged_coerced_def
        int_of_str_1 int_of_str_2)

lemma example_paged_paging:
  "page_no_arg example_paged_coerced = QInt 1" "limit_arg example_paged_coerced = QInt 2"
  by (simp_all add: example_paged_coerced_def example_coerced_def)

lemma example_page: "coerce_int (QStr ''1'') = Inr (QInt 1)" "coerce_int (QStr ''2'') = Inr (QInt 2)"
  by (simp_all add: coerce_int_def int_of_str_1 int_of_str_2)

lemma example_lookup:
  "get_authorised_form_list example_env ''reviewer'' example_stored_world
     = (Inr (PList [PDict [(''formName'', PStr ''Permit'')]]),
        \<lparr> store = [example_row, example_row2, example_row3],
          cache = [(''reviewer'', PList [PDict [(''formName'', PStr ''Permit'')]])],
          trace = [AuthFetch ''reviewer''] \<rparr>)"
  by (simp add: get_authorised_form_list_def example_env_def example_stored_world_def maxsize_def)

lemma example_form_names:
  "form_names_of (PList [PDict [(''formName'', PStr ''Permit'')]]) = Inr [PStr ''Permit'']"
  by (simp add: form_names_of_def)

lemma example_dumps:
  "dump_entity example_env example_row = example_row_dump 1"
  "dump_entity example_env example_row2 = example_row_dump 2"
  "dump_entity example_env example_row3 = example_row_dump 3"
  by (simp_all add: example_env_def example_row_def example_row2_def example_row3_def
        example_row_dump_def)

lemma example_matching_by_user:
  "matching example_env (Find_all_by_user (QStr ''alice'') example_paged_coerced)
     [example_row, example_row2, example_row3] = [example_row, example_row3]"
  by (simp add: matching_def example_env_def filter_predicates_def filter_admits_def
        example_paged_coerced_def example_coerced_def arg_val_def
        example_row_def example_row2_def example_row3_def)

lemma example_matching_by_form_names:
  "matching example_env (Find_by_form_names [PStr ''Permit''] example_paged_coerced)
     [example_row, example_row2, example_row3] = [example_row, example_row2, example_row3]"
  by (simp add: matching_def example_env_def filter_predicates_def filter_admits_def
        example_paged_coerced_def example_coerced_def arg_val_def
        example_row_def example_row2_def example_row3_def)

lemma example_matching_all:
  "matching example_env (Find_all p l) [example_row, example_row2, example_row3]
     = [example_row, example_row2, example_row3]"
  by (simp add: matching_def example_env_def)

text \<open>
  C7: for the filter and paging arguments of the read operations. A falsy argument
  (\<open>None\<close>, the empty string, the integer 0) leaves the \<open>int\<close> and the \<open>str\<close> coercion
  as it came, and as a filter value it admits every application; an integer stays the
  integer; the decimal text of an integer becomes that integer, and a non-zero integer
  given for a textual argument becomes its decimal text (both for numbers within the
  digit limit of the conversion); a non-empty text stays the text. The five operations
  that take \<open>page_no\<close> and \<open>limit\<close> coerce both with \<open>int\<close> and hand the results to
  their find operation. The two filtered operations coerce \<open>page_no\<close>, \<open>limit\<close> and
  \<open>application_id\<close> with \<open>int\<close>, \<open>order_by\<close>, \<open>sort_order\<close>, \<open>application_name\<close>,
  \<open>application_status\<close> and \<open>created_by\<close> with \<open>str\<close>, hand the coerced arguments to
  their find operation, and return the same result for two sets of arguments that
  differ in falsy values only, so that a filter value of 0 constrains as little as an
  absent one. A find operation whose page number or page size is falsy returns the full
  filtered result.
\<close>

theorem coercion_contract:
  "(\<not> truthy_arg x \<longrightarrow>
       coerce_int x = Inr x \<and> coerce_str x = Inr x \<and> (\<forall>k a. filter_admits e (k, x) a))
   \<and> coerce_int (QInt n) = Inr (QInt n)
   \<and> (length (digits_of_nat (nat \<bar>n\<bar>)) \<le> max_str_digits \<longrightarrow>
         coerce_int (QStr (str_of_int n)) = Inr (QInt n)
       \<and> (n \<noteq> 0 \<longrightarrow> coerce_str (QInt n) = Inr (QStr (str_of_int n))))
   \<and> (s \<noteq> [] \<longrightarrow> coerce_str (QStr s) = Inr (QStr s))
   \<and> (coerce_page page_no limit = Inr (p, l)
        \<longleftrightarrow> coerce_int page_no = Inr p \<and> coerce_int limit = Inr l)
   \<and> (coerce_int page_no = Inr p \<longrightarrow> coerce_int limit = Inr l \<longrightarrow>
         trace (snd (get_all_applications e page_no limit w)) = trace w @ [RepoFind (Find_all p l)]
       \<and> trace (snd (get_all_application_by_user_group e page_no limit user_id w))
           = trace w @ [RepoFind (Find_all_by_user_group user_id p l)]
       \<and> trace (snd (get_all_applications_form_id e form_id page_no limit w))
           = trace w @ [RepoFind (Find_by_form_id form_id p l)]
       \<and> trace (snd (get_all_applications_form_id_user e form_id user_id page_no limit w))
           = trace w @ [RepoFind (Find_by_form_id_user form_id user_id p l)]
       \<and> (\<forall>auth w1 names.
             get_authorised_form_list e token w = (Inr auth, w1) \<longrightarrow> truthy auth \<longrightarrow>
             form_names_of auth = Inr names \<longrightarrow>
               trace (snd (get_all_application_count e token page_no limit w))
                 = trace w1 @ [RepoFind (Find_all_applications names p l)]))
   \<and> (coerce_filters f = Inr f' \<longrightarrow>
         coerce_int (page_no_arg f) = Inr (page_no_arg f')
       \<and> coerce_int (limit_arg f) = Inr (limit_arg f')
       \<and> coerce_int (application_id_arg f) = Inr (application_id_arg f')
       \<and> coerce_str (order_by_arg f) = Inr (order_by_arg f')
       \<and> coerce_str (sort_order_arg f) = Inr (sort_order_arg f')
       \<and> coerce_str (application_name_arg f) = Inr (application_name_arg f')
       \<and> coerce_str (application_status_arg f) = Inr (application_status_arg f')
       \<and> coerce_str (created_by_arg f) = Inr (created_by_arg f')
       \<and> trace (snd (get_all_applications_by_user e user_id f w))
           = trace w @ [RepoFind (Find_all_by_user user_id f')]
       \<and> (\<forall>auth w1 names.
             get_authorised_form_list e token w = (Inr auth, w1) \<longrightarrow> truthy auth \<longrightarrow>
             form_names_of auth = Inr names \<longrightarrow>
               trace (snd (get_auth_applications_and_count e token f w))
                 = trace w1 @ [RepoFind (Find_by_form_names names f')])
       \<and> (\<forall>g. same_constraints f g \<longrightarrow>
               fst (get_all_applications_by_user e user_id f w)
                 = fst (get_all_applications_by_user e user_id g w)
             \<and> fst (get_auth_applications_and_count e token f w)
                 = fst (get_auth_applications_and_count e token g w)))
   \<and> (\<not> truthy_arg (fst (paging_of c)) \<or> \<not> truthy_arg (snd (paging_of c)) \<longrightarrow>
         find_rows e c rows = matching e c rows
       \<and> find_counted e c rows = (matching e c rows, int (length (matching e c rows))))"
proof -
  have a: "\<not> truthy_arg x \<longrightarrow>
       coerce_int x = Inr x \<and> coerce_str x = Inr x \<and> (\<forall>k a. filter_admits e (k, x) a)"
    by (simp add: coerce_int_falsy coerce_str_falsy filter_admits_def)
  have b: "coerce_int (QInt n) = Inr (QInt n)" by (rule coerce_int_int)
  have c: "length (digits_of_nat (nat \<bar>n\<bar>)) \<le> max_str_digits \<longrightarrow>
         coerce_int (QStr (str_of_int n)) = Inr (QInt n)
       \<and> (n \<noteq> 0 \<longrightarrow> coerce_str (QInt n) = Inr (QStr (str_of_int n)))"
    by (simp add: coerce_int_numeric_string coerce_str_int)
  have d: "s \<noteq> [] \<longrightarrow> coerce_str (QStr s) = Inr (QStr s)"
    by (simp add: coerce_str_text)
  have g: "coerce_page page_no limit = Inr (p, l)
        \<longleftrightarrow> coerce_int page_no = Inr p \<and> coerce_int limit = Inr l"
    by (rule coerce_page_iff)
  have h: "coerce_int page_no = Inr p \<longrightarrow> coerce_int limit = Inr l \<longrightarrow>
         trace (snd (get_all_applications e page_no limit w)) = trace w @ [RepoFind (Find_all p l)]
       \<and> trace (snd (get_all_application_by_user_group e page_no limit user_id w))
           = trace w @ [RepoFind (Find_all_by_user_group user_id p l)]
       \<and> trace (snd (get_all_applications_form_id e form_id page_no limit w))
           = trace w @ [RepoFind (Find_by_form_id form_id p l)]
       \<and> trace (snd (get_all_applications_form_id_user e form_id user_id page_no limit w))
           = trace w @ [RepoFind (Find_by_form_id_user form_id user_id p l)]
       \<and> (\<forall>auth w1 names.
             get_authorised_form_list e token w = (Inr auth, w1) \<longrightarrow> truthy auth \<longrightarrow>
             form_names_of auth = Inr names \<longrightarrow>
               trace (snd (get_all_application_count e token page_no limit w))
                 = trace w1 @ [RepoFind (Find_all_applications names p l)])"
    using page_traces [of page_no p limit l] count_trace [of page_no p limit l] by blast
  have i: "coerce_filters f = Inr f' \<longrightarrow>
         coerce_int (page_no_arg f) = Inr (page_no_arg f')
       \<and> coerce_int (limit_arg f) = Inr (limit_arg f')
       \<and> coerce_int (application_id_arg f) = Inr (application_id_arg f')
       \<and> coerce_str (order_by_arg f) = Inr (order_by_arg f')
       \<and> coerce_str (sort_order_arg f) = Inr (sort_order_arg f')
       \<and> coerce_str (application_name_arg f) = Inr (application_name_arg f')
       \<and> coerce_str (application_status_arg f) = Inr (application_status_arg f')
       \<and> coerce_str (created_by_arg f) = Inr (created_by_arg f')
       \<and> trace (snd (get_all_applications_by_user e user_id f w))
           = trace w @ [RepoFind (Find_all_by_user user_id f')]
       \<and> (\<forall>auth w1 names.
             get_authorised_form_list e token w = (Inr auth, w1) \<longrightarrow> truthy auth \<longrightarrow>
             form_names_of auth = Inr names \<longrightarrow>
               trace (snd (get_auth_applications_and_count e token f w))
                 = trace w1 @ [RepoFind (Find_by_form_names names f')])
       \<and> (\<forall>g. same_constraints f g \<longrightarrow>
               fst (get_all_applications_by_user e user_id f w)
                 = fst (get_all_applications_by_user e user_id g w)
             \<and> fst (get_auth_applications_and_count e token f w)
                 = fst (get_auth_applications_and_count e token g w))"
  proof
    assume cf: "coerce_filters f = Inr f'"
    from coerce_filters_fields [OF cf] by_user_trace [OF cf, of e user_id w]
      auth_trace [OF cf, of e token w] by_user_same [OF cf, of _ e user_id w]
      auth_same [OF cf, of _ e token w]
    show "coerce_int (page_no_arg f) = Inr (page_no_arg f')
       \<and> coerce_int (limit_arg f) = Inr (limit_arg f')
       \<and> coerce_int (application_id_arg f) = Inr (application_id_arg f')
       \<and> coerce_str (order_by_arg f) = Inr (order_by_arg f')
       \<and> coerce_str (sort_order_arg f) = Inr (sort_order_arg f')
       \<and> coerce_str (application_name_arg f) = Inr (application_name_arg f')
       \<and> coerce_str (application_status_arg f) = Inr (application_status_arg f')
       \<and> coerce_str (created_by_arg f) = Inr (created_by_arg f')
       \<and> trace (snd (get_all_applications_by_user e user_id f w))
           = trace w @ [RepoFind (Find_all_by_user user_id f')]
       \<and> (\<forall>auth w1 names.
             get_authorised_form_list e token w = (Inr auth, w1) \<longrightarrow> truthy auth \<longrightarrow>
             form_names_of auth = Inr names \<longrightarrow>
               trace (snd (get_auth_applications_and_count e token f w))
                 = trace w1 @ [RepoFind (Find_by_form_names names f')])
       \<and> (\<forall>g. same_constraints f g \<longrightarrow>
               fst (get_all_applications_by_user e user_id f w)
                 = fst (get_all_applications_by_user e user_id g w)
             \<and> fst (get_auth_applications_and_count e token f w)
                 = fst (get_auth_applications_and_count e token g w))"
      by blast
  qed
  have j: "\<not> truthy_arg (fst (paging_of c)) \<or> \<not> truthy_arg (snd (paging_of c)) \<longrightarrow>
         find_rows e c rows = matching e c rows
       \<and> find_counted e c rows = (matching e c rows, int (length (matching e c rows)))"
    using unpaged [of c e rows] by blast
  from a b c d g h i j show ?thesis by (intro conjI)
qed

theorem coercion_contract_witness:
  "coerce_int (QInt 0) = Inr (QInt 0) \<and> coerce_str (QInt 0) = Inr (QInt 0)
   \<and> filter_admits example_env (''application_id'', QInt 0) example_row
   \<and> coerce_int (QStr ''5'') = Inr (QInt 5) \<and> coerce_int (QInt 5) = Inr (QInt 5)
   \<and> coerce_str (QInt 5) = Inr (QStr ''5'')
   \<and> coerce_str (QStr ''alice'') = Inr (QStr ''alice'')
   \<and> coerce_page (QStr ''1'') (QStr ''2'') = Inr (QInt 1, QInt 2)
   \<and> trace (snd (get_all_applications example_env (QStr ''1'') (QStr ''2'') example_stored_world))
       = [RepoFind (Find_all (QInt 1) (QInt 2))]
   \<and> trace (snd (get_all_application_by_user_group example_env (QStr ''1'') (QStr ''2'')
                   (QStr ''alice'') example_stored_world))
       = [RepoFind (Find_all_by_user_group (QStr ''alice'') (QInt 1) (QInt 2))]
   \<and> trace (snd (get_all_applications_form_id example_env (QStr ''F1'') (QStr ''1'') (QStr ''2'')
                   example_stored_world))
       = [RepoFind (Find_by_form_id (QStr ''F1'') (QInt 1) (QInt 2))]
   \<and> trace (snd (get_all_applications_form_id_user example_env (QStr ''F1'') (QStr ''alice'')
                   (QStr ''1'') (QStr ''2'') example_stored_world))
       = [RepoFind (Find_by_form_id_user (QStr ''F1'') (QStr ''alice'') (QInt 1) (QInt 2))]
   \<and> trace (snd (get_all_application_count example_env ''reviewer'' (QStr ''1'') (QStr ''2'')
                   example_stored_world))
       = [AuthFetch ''reviewer'',
          RepoFind (Find_all_applications [PStr ''Permit''] (QInt 1) (QInt 2))]
   \<and> coerce_filters example_paged_filters = Inr example_paged_coerced
   \<and> trace (snd (get_all_applications_by_user example_env (QStr ''alice'') example_paged_filters
                   example_stored_world))
       = [RepoFind (Find_all_by_user (QStr ''alice'') example_paged_coerced)]
   \<and> trace (snd (get_auth_applications_and_count example_env ''reviewer'' example_paged_filters
                   example_stored_world))
       = [AuthFetch ''reviewer'',
          RepoFind (Find_by_form_names [PStr ''Permit''] example_paged_coerced)]
   \<and> fst (get_all_applications_by_user example_env (QStr ''alice'') example_paged_filters
             example_stored_world)
       = Inr (Counted (PList [example_row_dump 1, example_row_dump 3]) 2)
   \<and> fst (get_all_applications_by_user example_env (QStr ''alice'')
             (example_paged_filters\<lparr>application_id_arg := QNone, application_name_arg := QNone\<rparr>)
             example_stored_world)
       = Inr (Counted (PList [example_row_dump 1, example_row_dump 3]) 2)
   \<and> fst (get_auth_applications_and_count example_env ''reviewer'' example_paged_filters
             example_stored_world)
       = Inr (Counted (PList [example_row_dump 1, example_row_dump 2]) 3)
   \<and> fst (get_auth_applications_and_count example_env ''reviewer''
             (example_paged_filters\<lparr>application_id_arg := QNone, application_name_arg := QNone\<rparr>)
             example_stored_world)
       = Inr (Counted (PList [example_row_dump 1, example_row_dump 2]) 3)
   \<and> find_rows example_env (Find_all QNone (QInt 2)) (store example_stored_world)
       = [example_row, example_row2, example_row3]
   \<and> find_counted example_env (Find_all QNone (QInt 2)) (store example_stored_world)
       = ([example_row, example_row2, example_row3], 3)"
proof -
  let ?g = "example_paged_filters\<lparr>application_id_arg := QNone, application_name_arg := QNone\<rparr>"
  note c = coercion_contract
    [where x = "QInt 0" and n = 5 and s = "''alice''"
       and page_no = "QStr ''1''" and limit = "QStr ''2''" and p = "QInt 1" and l = "QInt 2"
       and e = example_env and w = example_stored_world and user_id = "QStr ''alice''"
       and token = "''reviewer''" and form_id = "QStr ''F1''"
       and f = example_paged_filters and f' = example_paged_coerced
       and c = "Find_all QNone (QInt 2)" and rows = "store example_stored_world"]
  have falsy: "\<not> truthy_arg (QInt 0)" by simp
  have nonempty: "''alice'' \<noteq> []" by simp
  have same: "same_constraints example_paged_filters ?g"
    by (simp add: same_constraints_def same_or_falsy_def example_paged_filters_def
          example_filters_def)
  have unp: "\<not> truthy_arg (fst (paging_of (Find_all QNone (QInt 2))))" by simp
  have st: "store example_stored_world = [example_row, example_row2, example_row3]"
    and tr: "trace example_stored_world = []"
    by (simp_all add: example_stored_world_def)
  from c have a: "coerce_int (QInt 0) = Inr (QInt 0) \<and> coerce_str (QInt 0) = Inr (QInt 0)
      \<and> filter_admits example_env (''application_id'', QInt 0) example_row"
    by (elim conjE) (simp add: falsy)
  from c have b: "coerce_int (QStr (str_of_int 5)) = Inr (QInt 5)
      \<and> coerce_int (QInt 5) = Inr (QInt 5) \<and> coerce_str (QInt 5) = Inr (QStr (str_of_int 5))"
    by (elim conjE) (simp add: digits_5)
  from c have d: "coerce_str (QStr ''alice'') = Inr (QStr ''alice'')"
    by (elim conjE) (simp add: nonempty)
  from c have g: "coerce_page (QStr ''1'') (QStr ''2'') = Inr (QInt 1, QInt 2)"
    by (elim conjE) (simp add: example_page)
  from c have h: "trace (snd (get_all_applications example_env (QStr ''1'') (QStr ''2'')
                    example_stored_world))
       = trace example_stored_world @ [RepoFind (Find_all (QInt 1) (QInt 2))]
     \<and> trace (snd (get_all_application_by_user_group example_env (QStr ''1'') (QStr ''2'')
                   (QStr ''alice'') example_stored_world))
       = trace example_stored_world
           @ [RepoFind (Find_all_by_user_group (QStr ''alice'') (QInt 1) (QInt 2))]
     \<and> trace (snd (get_all_applications_form_id example_env (QStr ''F1'') (QStr ''1'') (QStr ''2'')
                   example_stored_world))
       = trace example_stored_world @ [RepoFind (Find_by_form_id (QStr ''F1'') (QInt 1) (QInt 2))]
     \<and> trace (snd (get_all_applications_form_id_user example_env (QStr ''F1'') (QStr ''alice'')
                   (QStr ''1'') (QStr ''2'') example_stored_world))
       = trace example_stored_world
           @ [RepoFind (Find_by_form_id_user (QStr ''F1'') (QStr ''alice'') (QInt 1) (QInt 2))]"
    by (elim conjE) (simp add: example_page)
  from c have i: "trace (snd (get_all_application_count example_env ''reviewer'' (QStr ''1'')
                    (QStr ''2'') example_stored_world))
       = [AuthFetch ''reviewer'']
           @ [RepoFind (Find_all_applications [PStr ''Permit''] (QInt 1) (QInt 2))]"
    by (elim conjE) (simp add: example_page example_lookup example_form_names)
  from c have j: "trace (snd (get_all_applications_by_user example_env (QStr ''alice'')
                    example_paged_filters example_stored_world))
       = trace example_stored_world
           @ [RepoFind (Find_all_by_user (QStr ''alice'') example_paged_coerced)]"
    by (elim conjE) (simp add: example_paged_filters_coerced)
  from c have j2: "trace (snd (get_auth_applications_and_count example_env ''reviewer''
                    example_paged_filters example_stored_world))
       = [AuthFetch ''reviewer'']
           @ [RepoFind (Find_by_form_names [PStr ''Permit''] example_paged_coerced)]"
    by (elim conjE) (simp add: example_paged_filters_coerced example_lookup example_form_names)
  from c have k: "fst (get_all_applications_by_user example_env (QStr ''alice'')
                    example_paged_filters example_stored_world)
       = fst (get_all_applications_by_user example_env (QStr ''alice'') ?g example_stored_world)
     \<and> fst (get_auth_applications_and_count example_env ''reviewer'' example_paged_filters
              example_stored_world)
       = fst (get_auth_applications_and_count example_env ''reviewer'' ?g example_stored_world)"
    by (elim conjE) (simp add: example_paged_filters_coerced same)
  from c have m: "find_rows example_env (Find_all QNone (QInt 2)) (store example_stored_world)
       = matching example_env (Find_all QNone (QInt 2)) (store example_stored_world)
     \<and> find_counted example_env (Find_all QNone (QInt 2)) (store example_stored_world)
       = (matching example_env (Find_all QNone (QInt 2)) (store example_stored_world),
          int (length (matching example_env (Find_all QNone (QInt 2))
                         (store example_stored_world))))"
    by (elim conjE) (simp add: unp)
  have r: "fst (get_all_applications_by_user example_env (QStr ''alice'') example_paged_filters
             example_stored_world)
       = Inr (Counted (PList [example_row_dump 1, example_row_dump 3]) 2)"
    by (simp add: get_all_applications_by_user_def coerce_filters_by_user_eq
          example_paged_filters_coerced find_counted_def st example_matching_by_user
          page_slice_def example_paged_paging dump_many_def example_dumps)
  have r2: "fst (get_auth_applications_and_count example_env ''reviewer'' example_paged_filters
             example_stored_world)
       = Inr (Counted (PList [example_row_dump 1, example_row_dump 2]) 3)"
    by (simp add: get_auth_applications_and_count_def example_paged_filters_coerced
          example_lookup example_form_names find_counted_def example_matching_by_form_names
          page_slice_def example_paged_paging dump_many_def example_dumps)
  from a b d g h i j j2 k m r r2 example_paged_filters_coerced show ?thesis
    by (simp add: str_of_int_5 st tr example_matching_all)
qed

section \<open>What the read operations return\<close>














section \<open>Form and submission identifiers\<close>

lemma find_from_lower: "find_from s sub i = - 1 \<or> i \<le> find_from s sub i"
  by (induction s sub i rule: find_from.induct) auto

lemma py_slice_found:
  assumes "0 \<le> a" and "0 \<le> b"
  shows "py_slice s a b = take (nat b - nat a) (drop (nat a) s)"
proof -
  have "take (nat (min (int (length s)) b - min (int (length s)) a)) (drop (nat (min (int (length s)) a)) s)
        = take (nat b - nat a) (drop (nat a) s)"
  proof (cases "a \<le> int (length s)")
    case True
    then have ma: "min (int (length s)) a = a" by simp
    show ?thesis
    proof (cases "b \<le> int (length s)")
      case True
      then have "min (int (length s)) b = b" by simp
      with ma assms show ?thesis by (simp add: nat_diff_distrib')
    next
      case False
      then have "min (int (length s)) b = int (length s)" by simp
      with ma assms False True show ?thesis by (simp add: nat_diff_distrib')
    qed
  next
    case False
    then show ?thesis using assms by simp
  qed
  with assms show ?thesis by (simp add: py_slice_def slice_bound_def Let_def)
qed


lemma find_from_spec:
  assumes "find_from s sub i = r" and "0 \<le> i" and "i \<le> r"
  shows "take (length sub) (drop (nat (r - i)) s) = sub
         \<and> (\<forall>m<nat (r - i). take (length sub) (drop m s) \<noteq> sub)"
  using assms
proof (induction s arbitrary: i)
  case Nil
  then show ?case by (auto split: if_splits)
next
  case (Cons c cs)
  show ?case
  proof (cases "take (length sub) (c # cs) = sub")
    case True
    with Cons.prems have "r = i" by simp
    with True show ?thesis by simp
  next
    case False
    with Cons.prems have r: "find_from cs sub (i + 1) = r" by simp
    have "r = - 1 \<or> i + 1 \<le> r"
      using find_from_lower [of cs sub "i + 1"] r by simp
    with Cons.prems have le: "i + 1 \<le> r" by linarith
    from Cons.IH [OF r _ le] Cons.prems
    have hit: "take (length sub) (drop (nat (r - (i + 1))) cs) = sub"
      and before: "\<forall>m<nat (r - (i + 1)). take (length sub) (drop m cs) \<noteq> sub"
      by simp_all
    have suc: "nat (r - i) = Suc (nat (r - (i + 1)))" using le by simp
    have "take (length sub) (drop m (c # cs)) \<noteq> sub" if "m < nat (r - i)" for m
    proof (cases m)
      case 0
      with False show ?thesis by simp
    next
      case (Suc m')
      with that suc have "m' < nat (r - (i + 1))" by simp
      with before Suc show ?thesis by simp
    qed
    with hit suc show ?thesis by simp
  qed
qed

lemma py_find_spec:
  assumes "py_find s sub = int k"
  shows "take (length sub) (drop k s) = sub \<and> (\<forall>m<k. take (length sub) (drop m s) \<noteq> sub)"
  using find_from_spec [of s sub 0 "int k"] assms by (simp add: py_find_def)

lemma example_find_form: "py_find ''http://host/form/F1/submission/S1'' ''/form/'' = int 11"
  by (simp add: py_find_def)

lemma example_find_submission: "py_find ''http://host/form/F1/submission/S1'' ''/submission/'' = int 19"
  by (simp add: py_find_def)

text \<open>
  C8: a record without \<open>formUrl\<close> makes \<open>apply_attributes\<close> return the pair of the
  message and \<open>BAD_REQUEST\<close>; nothing is raised. For a record whose \<open>formUrl\<close> is a
  string in which \<open>/form/\<close> is found at \<open>i\<close> and \<open>/submission/\<close> at \<open>j\<close> (the first
  place each literal occurs), the record returned has \<open>formId\<close> set to the characters
  from the end of \<open>/form/\<close> up to the start of \<open>/submission/\<close>, and \<open>submissionId\<close>
  to the characters after \<open>/submission/\<close>.
\<close>

theorem apply_attributes_form_and_submission:
  "(application ''formUrl'' = None \<longrightarrow>
      apply_attributes application
        = Inr (Rejected ''The required fields of Input request are not passed'' BAD_REQUEST))
   \<and> (application ''formUrl'' = Some (PStr url) \<longrightarrow>
        py_find url ''/form/'' = int i \<longrightarrow>
        py_find url ''/submission/'' = int j \<longrightarrow>
          apply_attributes application
            = Inr (Applied (application
                (''formId'' \<mapsto> PStr (take (j - (i + 6)) (drop (i + 6) url)),
                 ''submissionId'' \<mapsto> PStr (drop (j + 12) url))))
          \<and> take 6 (drop i url) = ''/form/''
          \<and> (\<forall>m<i. take 6 (drop m url) \<noteq> ''/form/'')
          \<and> take 12 (drop j url) = ''/submission/''
          \<and> (\<forall>m<j. take 12 (drop m url) \<noteq> ''/submission/''))"
proof (intro conjI impI)
  assume "application ''formUrl'' = None"
  then show "apply_attributes application
        = Inr (Rejected ''The required fields of Input request are not passed'' BAD_REQUEST)"
    by (simp add: apply_attributes_def)
next
  assume u: "application ''formUrl'' = Some (PStr url)"
    and i: "py_find url ''/form/'' = int i"
    and j: "py_find url ''/submission/'' = int j"
  have a: "py_slice url (int i + 6) (int j) = take (j - (i + 6)) (drop (i + 6) url)"
    using py_slice_found [of "int i + 6" "int j" url] by (simp add: nat_add_distrib)
  have b: "py_slice url (int j + 12) (int (length url)) = drop (j + 12) url"
    using py_slice_found [of "int j + 12" "int (length url)" url] by (simp add: nat_add_distrib)
  show "apply_attributes application
            = Inr (Applied (application
                (''formId'' \<mapsto> PStr (take (j - (i + 6)) (drop (i + 6) url)),
                 ''submissionId'' \<mapsto> PStr (drop (j + 12) url))))"
    using u i j a b by (simp add: apply_attributes_def Let_def)
  show "take 6 (drop i url) = ''/form/''"
    using py_find_spec [OF i] by (simp add: eval_nat_numeral)
  show "\<forall>m<i. take 6 (drop m url) \<noteq> ''/form/''"
    using py_find_spec [OF i] by (simp add: eval_nat_numeral)
  show "take 12 (drop j url) = ''/submission/''"
    using py_find_spec [OF j] by (simp add: eval_nat_numeral)
  show "\<forall>m<j. take 12 (drop m url) \<noteq> ''/submission/''"
    using py_find_spec [OF j] by (simp add: eval_nat_numeral)
qed

theorem apply_attributes_form_and_submission_witness:
  "apply_attributes example_record
     = Inr (Applied (example_record(''formId'' \<mapsto> PStr ''F1'', ''submissionId'' \<mapsto> PStr ''S1'')))
   \<and> apply_attributes [''id'' \<mapsto> PInt 1]
     = Inr (Rejected ''The required fields of Input request are not passed'' BAD_REQUEST)"
proof -
  have u: "example_record ''formUrl'' = Some (PStr ''http://host/form/F1/submission/S1'')"
    by (simp add: example_record_def)
  have n: "[''id'' \<mapsto> PInt 1] ''formUrl'' = None" by simp
  from apply_attributes_form_and_submission
         [of example_record "''http://host/form/F1/submission/S1''" 11 19]
       u example_find_form example_find_submission
  have "apply_attributes example_record
     = Inr (Applied (example_record(''formId'' \<mapsto> PStr ''F1'', ''submissionId'' \<mapsto> PStr ''S1'')))"
    by simp
  moreover from apply_attributes_form_and_submission [of "[''id'' \<mapsto> PInt 1]"] n
  have "apply_attributes [''id'' \<mapsto> PInt 1]
     = Inr (Rejected ''The required fields of Input request are not passed'' BAD_REQUEST)"
    by simp
  ultimately show ?thesis by simp
qed

end
